theory Spec2Isabelle
  imports Complex_Main
begin

section \<open>Python and numpy primitives used by AddBiomechanicsDataset.py\<close>

text \<open>
  The exceptions the module can raise by itself: the \<^verbatim>\<open>assert\<close> in the constructor,
  an out-of-range subscript on a Python list, and the numpy errors (a negative dimension
  given to \<^verbatim>\<open>np.zeros\<close>, a seed outside \<open>[0, 2^32)\<close> given to
  \<^verbatim>\<open>np.random.seed\<close>, an assignment whose right-hand side cannot be broadcast).
\<close>

datatype error = AssertionError | IndexError | ValueError

text \<open>\<^verbatim>\<open>xs[i]\<close> on a Python list: a negative subscript counts from the end.\<close>

definition list_get :: "'x list \<Rightarrow> int \<Rightarrow> error + 'x" where
  "list_get xs i =
     (if 0 \<le> i \<and> i < int (length xs) then Inr (xs ! nat i)
      else if i < 0 \<and> - int (length xs) \<le> i then Inr (xs ! nat (int (length xs) + i))
      else Inl IndexError)"

text \<open>\<^verbatim>\<open>range(a, b)\<close>: the integers from \<open>a\<close> up to \<open>b - 1\<close>, none when \<open>b \<le> a\<close>.\<close>

definition py_range :: "int \<Rightarrow> int \<Rightarrow> int list" where
  "py_range a b = map (\<lambda>k. a + int k) [0..<nat (b - a)]"

text \<open>
  The bounds of a slice \<^verbatim>\<open>[s:e]\<close> over a sequence of length \<open>n\<close>: a negative bound is
  taken from the end, and every bound is clipped into \<open>[0, n]\<close>.
\<close>

definition clamp_index :: "nat \<Rightarrow> int \<Rightarrow> nat" where
  "clamp_index n i = (if i < 0 then nat (int n + i) else min n (nat i))"

definition slice_len :: "nat \<Rightarrow> int \<Rightarrow> int \<Rightarrow> nat" where
  "slice_len n s e = clamp_index n e - clamp_index n s"

definition py_slice :: "'x list \<Rightarrow> int \<Rightarrow> int \<Rightarrow> 'x list" where
  "py_slice xs s e =
     take (slice_len (length xs) s e) (drop (clamp_index (length xs) s) xs)"

text \<open>\<^verbatim>\<open>s.endswith(suffix)\<close>.\<close>

definition endswith :: "string \<Rightarrow> string \<Rightarrow> bool" where
  "endswith s suffix =
     (length suffix \<le> length s \<and> drop (length s - length suffix) s = suffix)"

text \<open>\<^verbatim>\<open>xs.index(x)\<close> for an \<open>x\<close> that occurs in \<open>xs\<close>: the first position.\<close>

fun index_of :: "'x list \<Rightarrow> 'x \<Rightarrow> nat" where
  "index_of [] x = 0"
| "index_of (y # ys) x = (if y = x then 0 else Suc (index_of ys x))"

text \<open>
  \<^verbatim>\<open>os.path.join(root, file)\<close> for a file name given by \<^verbatim>\<open>os.walk\<close> (it holds no
  separator): the separator is added unless the directory is empty or ends with one.
\<close>

definition path_join :: "string \<Rightarrow> string \<Rightarrow> string" where
  "path_join dirpath file =
     (if dirpath = [] \<or> last dirpath = CHR ''/'' then dirpath @ file
      else dirpath @ ''/'' @ file)"

subsection \<open>Two-dimensional numpy arrays\<close>

text \<open>
  A 2-D array is its rows together with its number of columns, so that an array of
  shape \<open>(0, c)\<close> keeps its width: numpy's broadcasting looks at it. The scalar type
  \<open>'a\<close> is left abstract: the code only divides scalars, writes the constant zero and
  converts to float32, and the theorems below hold for every reading of these.
\<close>

record 'a ndarray =
  ncols :: nat
  rows :: "'a list list"

definition nrows :: "'a ndarray \<Rightarrow> nat" where
  "nrows a = length (rows a)"

text \<open>Every row has the width the shape says.\<close>

definition regular :: "'a ndarray \<Rightarrow> bool" where
  "regular a = list_all (\<lambda>r. length r = ncols a) (rows a)"

text \<open>\<^verbatim>\<open>a.transpose()\<close>.\<close>

definition transpose_nd :: "'a ndarray \<Rightarrow> 'a ndarray" where
  "transpose_nd a =
     \<lparr>ncols = nrows a, rows = map (\<lambda>j. map (\<lambda>r. r ! j) (rows a)) [0..<ncols a]\<rparr>"

text \<open>\<^verbatim>\<open>a[s:e, :]\<close> and \<^verbatim>\<open>a[s:e, c0:c1]\<close>.\<close>

definition slice_rows :: "'a ndarray \<Rightarrow> int \<Rightarrow> int \<Rightarrow> 'a ndarray" where
  "slice_rows a s e = \<lparr>ncols = ncols a, rows = py_slice (rows a) s e\<rparr>"

definition slice_cols :: "'a ndarray \<Rightarrow> int \<Rightarrow> int \<Rightarrow> 'a ndarray" where
  "slice_cols a c0 c1 =
     \<lparr>ncols = slice_len (ncols a) c0 c1, rows = map (\<lambda>r. py_slice r c0 c1) (rows a)\<rparr>"

definition slice2 :: "'a ndarray \<Rightarrow> int \<Rightarrow> int \<Rightarrow> int \<Rightarrow> int \<Rightarrow> 'a ndarray" where
  "slice2 a s e c0 c1 = slice_cols (slice_rows a s e) c0 c1"

text \<open>\<^verbatim>\<open>a / mass\<close> with a scalar \<open>mass\<close>: every element is divided by it.\<close>

definition div_scalar :: "('a::inverse) ndarray \<Rightarrow> 'a \<Rightarrow> 'a ndarray" where
  "div_scalar a m = \<lparr>ncols = ncols a, rows = map (map (\<lambda>x. x / m)) (rows a)\<rparr>"

text \<open>\<^verbatim>\<open>np.zeros((r, c))\<close>: numpy refuses a negative dimension.\<close>

definition np_zeros :: "int \<Rightarrow> int \<Rightarrow> error + ('a::zero) ndarray" where
  "np_zeros r c =
     (if r < 0 \<or> c < 0 then Inl ValueError
      else Inr \<lparr>ncols = nat c, rows = replicate (nat r) (replicate (nat c) 0)\<rparr>)"

text \<open>
  Broadcasting a 2-D array to the shape \<open>(r, c)\<close>: each of its dimensions must be the
  wanted one or 1, and a dimension of 1 is repeated.
\<close>

definition broadcast_to :: "nat \<Rightarrow> nat \<Rightarrow> 'a ndarray \<Rightarrow> error + 'a list list" where
  "broadcast_to r c a =
     (if (nrows a = r \<or> nrows a = 1) \<and> (ncols a = c \<or> ncols a = 1) then
        Inr (map (\<lambda>i. map (\<lambda>j. rows a ! (if nrows a = 1 then 0 else i)
                                       ! (if ncols a = 1 then 0 else j)) [0..<c]) [0..<r])
      else Inl ValueError)"

text \<open>
  \<^verbatim>\<open>target[:, c0:c1] = src\<close>: the columns selected on the left are overwritten in
  place by \<open>src\<close> broadcast to their shape.
\<close>

definition assign_cols :: "'a ndarray \<Rightarrow> int \<Rightarrow> int \<Rightarrow> 'a ndarray \<Rightarrow> error + 'a ndarray" where
  "assign_cols target c0 c1 src =
     (let lo = clamp_index (ncols target) c0; w = slice_len (ncols target) c0 c1
      in case broadcast_to (nrows target) w src of
           Inl e \<Rightarrow> Inl e
         | Inr vals \<Rightarrow>
             Inr \<lparr>ncols = ncols target,
                  rows = map (\<lambda>(row, v). take lo row @ v @ drop (lo + w) row)
                             (zip (rows target) vals)\<rparr>)"

text \<open>
  \<^verbatim>\<open>torch.tensor(a, dtype=torch.float32, device=...)\<close>: every element is converted by
  the rounding \<open>f32\<close>; the device only says where the tensor is stored.
\<close>

definition torch_tensor :: "('a \<Rightarrow> 'a) \<Rightarrow> 'a ndarray \<Rightarrow> 'a ndarray" where
  "torch_tensor f32 a = \<lparr>ncols = ncols a, rows = map (map f32) (rows a)\<rparr>"

section \<open>The recording source\<close>

text \<open>
  The nimblephysics library is outside this repository. A recording is modelled by
  what the module reads from it: each getter is a field. The enumeration
  \<^verbatim>\<open>MissingGRFReason\<close> is only compared with \<^verbatim>\<open>notMissingGRF\<close>, so all its other
  members are \<open>otherReason\<close> with a number.
\<close>

datatype MissingGRFReason = notMissingGRF | otherReason nat

record 'a SubjectOnDiskTrialPass =
  getPoses :: "'a ndarray"
  getVels :: "'a ndarray"
  getAccs :: "'a ndarray"
  getJointCentersInRootFrame :: "'a ndarray"
  getRootSpatialVelInRootFrame :: "'a ndarray"
  getRootSpatialAccInRootFrame :: "'a ndarray"
  getRootPosHistoryInRootFrame :: "'a ndarray"
  getRootEulerHistoryInRootFrame :: "'a ndarray"
  getTaus :: "'a ndarray"
  getGroundBodyWrenchesInRootFrame :: "'a ndarray"
  getGroundBodyCopTorqueForceInRootFrame :: "'a ndarray"
  getComAccsInRootFrame :: "'a ndarray"
  getResidualWrenchInRootFrame :: "'a ndarray"

record 'a SubjectOnDiskTrial =
  getMissingGRF :: "MissingGRFReason list"
  getTrialLength :: nat
  getPasses :: "'a SubjectOnDiskTrialPass list"

record ('a, 'sk) SubjectOnDisk =
  getNumDofs :: int
  getNumJoints :: int
  getGroundForceBodies :: "string list"
  getMassKg :: 'a
  getTrials :: "'a SubjectOnDiskTrial list"
  getNumProcessingPasses :: int
  readSkel :: "int \<Rightarrow> string \<Rightarrow> 'sk"

text \<open>
  What the module asks of the world around it: the file system (\<^verbatim>\<open>os.path.isdir\<close>,
  \<^verbatim>\<open>os.walk\<close>), the recording behind a path, a skeleton's body nodes, and the
  conversion to float32.
\<close>

record ('a, 'sk, 'bn) env =
  isdir :: "string \<Rightarrow> bool"
  walk :: "string \<Rightarrow> (string \<times> string list \<times> string list) list"
  openSubject :: "string \<Rightarrow> ('a, 'sk) SubjectOnDisk"
  getBodyNode :: "'sk \<Rightarrow> string \<Rightarrow> 'bn"
  float32 :: "'a \<Rightarrow> 'a"

section \<open>The dataset\<close>

subsection \<open>Field names\<close>

definition POS :: string where "POS = ''pos''"
definition VEL :: string where "VEL = ''vel''"
definition ACC :: string where "ACC = ''acc''"
definition JOINT_CENTERS_IN_ROOT_FRAME :: string where
  "JOINT_CENTERS_IN_ROOT_FRAME = ''jointCentersInRootFrame''"
definition ROOT_LINEAR_VEL_IN_ROOT_FRAME :: string where
  "ROOT_LINEAR_VEL_IN_ROOT_FRAME = ''rootLinearVelInRootFrame''"
definition ROOT_ANGULAR_VEL_IN_ROOT_FRAME :: string where
  "ROOT_ANGULAR_VEL_IN_ROOT_FRAME = ''rootAngularVelInRootFrame''"
definition ROOT_LINEAR_ACC_IN_ROOT_FRAME :: string where
  "ROOT_LINEAR_ACC_IN_ROOT_FRAME = ''rootLinearAccInRootFrame''"
definition ROOT_ANGULAR_ACC_IN_ROOT_FRAME :: string where
  "ROOT_ANGULAR_ACC_IN_ROOT_FRAME = ''rootAngularAccInRootFrame''"
definition ROOT_POS_HISTORY_IN_ROOT_FRAME :: string where
  "ROOT_POS_HISTORY_IN_ROOT_FRAME = ''rootPosHistoryInRootFrame''"
definition ROOT_EULER_HISTORY_IN_ROOT_FRAME :: string where
  "ROOT_EULER_HISTORY_IN_ROOT_FRAME = ''rootEulerHistoryInRootFrame''"

definition TAU :: string where "TAU = ''tau''"
definition GROUND_CONTACT_WRENCHES_IN_ROOT_FRAME :: string where
  "GROUND_CONTACT_WRENCHES_IN_ROOT_FRAME = ''groundContactWrenchesInRootFrame''"
definition RESIDUAL_WRENCH_IN_ROOT_FRAME :: string where
  "RESIDUAL_WRENCH_IN_ROOT_FRAME = ''residualWrenchInRootFrame''"
definition COM_ACC_IN_ROOT_FRAME :: string where
  "COM_ACC_IN_ROOT_FRAME = ''comAccInRootFrame''"
definition GROUND_CONTACT_COPS_IN_ROOT_FRAME :: string where
  "GROUND_CONTACT_COPS_IN_ROOT_FRAME = ''groundContactCenterOfPressureInRootFrame''"
definition GROUND_CONTACT_TORQUES_IN_ROOT_FRAME :: string where
  "GROUND_CONTACT_TORQUES_IN_ROOT_FRAME = ''groundContactTorqueInRootFrame''"
definition GROUND_CONTACT_FORCES_IN_ROOT_FRAME :: string where
  "GROUND_CONTACT_FORCES_IN_ROOT_FRAME = ''groundContactForceInRootFrame''"

subsection \<open>State\<close>

text \<open>
  A Python dict that is only filled once, key by key, is the list of its items in
  insertion order; \<open>map_of\<close> reads it. A window is the triple the module stores:
  the input tensors, the label tensors and the subject index.
\<close>

type_synonym 'a tensor_dict = "(string \<times> 'a ndarray) list"
type_synonym 'a window = "'a tensor_dict \<times> 'a tensor_dict \<times> int"

text \<open>
  The attributes of an \<^verbatim>\<open>AddBiomechanicsDataset\<close>. The constructor sets
  \<^verbatim>\<open>num_dofs\<close> and \<^verbatim>\<open>num_joints\<close> only when it found a recording.
\<close>

record ('a, 'sk, 'bn) dataset =
  subject_paths :: "string list"
  window_size :: int
  geometry_folder :: string
  device :: string
  windows :: "'a window list"
  num_dofs :: "int option"
  num_joints :: "int option"
  contact_bodies :: "string list"
  skeletons :: "'sk list"
  skeletons_contact_bodies :: "'bn list list"

text \<open>
  A call that mutates the object either returns or raises; in both cases the object
  is left in some state.
\<close>

datatype 's outcome = Returned 's | Raised error 's

fun state_of :: "'s outcome \<Rightarrow> 's" where
  "state_of (Returned s) = s"
| "state_of (Raised e s) = s"

fun raised :: "'s outcome \<Rightarrow> error option" where
  "raised (Returned s) = None"
| "raised (Raised e s) = Some e"

subsection \<open>The constructor\<close>

text \<open>
  The loop over the first recording's contact bodies: \<^verbatim>\<open>pelvis\<close> is passed over, and
  a name is appended when the list does not hold it yet.
\<close>

fun add_contact_bodies :: "string list \<Rightarrow> string list \<Rightarrow> string list" where
  "add_contact_bodies [] registry = registry"
| "add_contact_bodies (body # rest) registry =
     (if body = ''pelvis'' then add_contact_bodies rest registry
      else if body \<notin> set registry then add_contact_bodies rest (registry @ [body])
      else add_contact_bodies rest registry)"

text \<open>The paths found: every \<^verbatim>\<open>.b3d\<close> file under a directory, or the one file given.\<close>

definition discover :: "('a, 'sk, 'bn) env \<Rightarrow> string \<Rightarrow> error + string list" where
  "discover world data_path =
     (if isdir world data_path then
        Inr (concat (map (\<lambda>(dirpath, dirs, files).
                            map (path_join dirpath) (filter (\<lambda>file. endswith file ''.b3d'') files))
                         (walk world data_path)))
      else if endswith data_path ''.b3d'' then Inr [data_path]
      else Inl AssertionError)"

definition init ::
  "('a, 'sk, 'bn) env \<Rightarrow> string \<Rightarrow> int \<Rightarrow> string \<Rightarrow> string \<Rightarrow> bool \<Rightarrow> bool
     \<Rightarrow> error + ('a, 'sk, 'bn) dataset" where
  "init world data_path window_size' geometry_folder' device' testing_with_short_dataset
        skip_loading_skeletons =
     (let self0 = \<lparr>subject_paths = [], window_size = window_size',
                   geometry_folder = geometry_folder', device = device', windows = [],
                   num_dofs = None, num_joints = None, contact_bodies = [],
                   skeletons = [], skeletons_contact_bodies = []\<rparr>
      in case discover world data_path of
           Inl e \<Rightarrow> Inl e
         | Inr paths \<Rightarrow>
             let self1 = self0\<lparr>subject_paths := paths\<rparr>;
                 self2 =
                   (if length (subject_paths self1) > 0 then
                      let subject = openSubject world (subject_paths self1 ! 0)
                      in self1\<lparr>num_dofs := Some (getNumDofs subject),
                               num_joints := Some (getNumJoints subject),
                               contact_bodies :=
                                 add_contact_bodies (getGroundForceBodies subject)
                                                    (contact_bodies self1)\<rparr>
                    else self1);
                 self3 =
                   (if testing_with_short_dataset
                    then self2\<lparr>subject_paths := take 2 (subject_paths self2)\<rparr> else self2);
                 self4 =
                   (if \<not> skip_loading_skeletons then
                      let loaded =
                            map (\<lambda>subject_path.
                                   let subject = openSubject world subject_path
                                   in readSkel subject (getNumProcessingPasses subject - 1)
                                               geometry_folder')
                                (subject_paths self3)
                      in self3\<lparr>skeletons := skeletons self3 @ loaded,
                               skeletons_contact_bodies :=
                                 skeletons_contact_bodies self3 @
                                 map (\<lambda>skeleton. map (getBodyNode world skeleton)
                                                      (contact_bodies self3))
                                     loaded\<rparr>
                    else self3);
                 self5 =
                   (if testing_with_short_dataset
                    then self4\<lparr>windows := take 100 (windows self4)\<rparr> else self4)
             in Inr self5)"

text \<open>\<^verbatim>\<open>__len__\<close> and \<^verbatim>\<open>__getitem__\<close>.\<close>

definition len :: "('a, 'sk, 'bn) dataset \<Rightarrow> nat" where
  "len self = length (windows self)"

definition getitem :: "('a, 'sk, 'bn) dataset \<Rightarrow> int \<Rightarrow> error + 'a window" where
  "getitem self index = list_get (windows self) index"

subsection \<open>prepare_data_for_subset\<close>

text \<open>
  The arrays copied once per trial, each transposed so that its rows are the frames:
  the inputs from pass 0, the outputs from the last pass.
\<close>

record 'a trial_arrays =
  pos :: "'a ndarray"
  vel :: "'a ndarray"
  acc_arr :: "'a ndarray"
  joint_centers_in_root_frame :: "'a ndarray"
  root_spatial_vel_in_root_frame :: "'a ndarray"
  root_spatial_acc_in_root_frame :: "'a ndarray"
  root_pos_history :: "'a ndarray"
  root_euler_history :: "'a ndarray"
  tau :: "'a ndarray"
  ground_contact_wrenches_in_root_frame :: "'a ndarray"
  ground_contact_cop_torque_force_in_root_frame :: "'a ndarray"
  com_acc_in_root_frame :: "'a ndarray"
  residual_wrench_in_root_frame :: "'a ndarray"

definition pull_arrays ::
  "'a SubjectOnDiskTrialPass \<Rightarrow> 'a SubjectOnDiskTrialPass \<Rightarrow> 'a trial_arrays" where
  "pull_arrays input_pass output_pass =
     \<lparr>pos = transpose_nd (getPoses input_pass),
      vel = transpose_nd (getVels input_pass),
      acc_arr = transpose_nd (getAccs input_pass),
      joint_centers_in_root_frame = transpose_nd (getJointCentersInRootFrame input_pass),
      root_spatial_vel_in_root_frame = transpose_nd (getRootSpatialVelInRootFrame input_pass),
      root_spatial_acc_in_root_frame = transpose_nd (getRootSpatialAccInRootFrame input_pass),
      root_pos_history = transpose_nd (getRootPosHistoryInRootFrame input_pass),
      root_euler_history = transpose_nd (getRootEulerHistoryInRootFrame input_pass),
      tau = transpose_nd (getTaus output_pass),
      ground_contact_wrenches_in_root_frame =
        transpose_nd (getGroundBodyWrenchesInRootFrame output_pass),
      ground_contact_cop_torque_force_in_root_frame =
        transpose_nd (getGroundBodyCopTorqueForceInRootFrame output_pass),
      com_acc_in_root_frame = transpose_nd (getComAccsInRootFrame output_pass),
      residual_wrench_in_root_frame = transpose_nd (getResidualWrenchInRootFrame output_pass)\<rparr>"

text \<open>
  The inner loop over the frames of a candidate window, with its \<^verbatim>\<open>break\<close>: the answer
  is \<open>True\<close> at the first flagged frame; a frame index past the flags raises.
\<close>

fun window_has_missing :: "bool list \<Rightarrow> int list \<Rightarrow> error + bool" where
  "window_has_missing probably_missing [] = Inr False"
| "window_has_missing probably_missing (i # rest) =
     (case list_get probably_missing i of
        Inl e \<Rightarrow> Inl e
      | Inr flag \<Rightarrow> if flag then Inr True else window_has_missing probably_missing rest)"

text \<open>
  \<^verbatim>\<open>contact_indices\<close>: for each registry name its first position in the subject's own
  list, or \<open>-1\<close>.
\<close>

definition contact_indices_of :: "string list \<Rightarrow> string list \<Rightarrow> int list" where
  "contact_indices_of ground_force_bodies registry =
     map (\<lambda>body. if body \<in> set ground_force_bodies
                  then int (index_of ground_force_bodies body) else - 1) registry"

text \<open>
  One turn of the loop over the registry: for a body the subject has, the three
  3-wide column blocks are written from the 9-wide packed block, torque and force
  divided by the mass. The three arrays are local to the window under construction.
\<close>

definition fill_body ::
  "('a::inverse) trial_arrays \<Rightarrow> 'a \<Rightarrow> int \<Rightarrow> int \<Rightarrow> int list \<Rightarrow> nat
     \<Rightarrow> 'a ndarray \<times> 'a ndarray \<times> 'a ndarray
     \<Rightarrow> error + ('a ndarray \<times> 'a ndarray \<times> 'a ndarray)" where
  "fill_body A mass window_start window_end_exclusive contact_indices i st =
     (case st of (cops, torques, forces) \<Rightarrow>
      let c = contact_indices ! i; packed = ground_contact_cop_torque_force_in_root_frame A
      in if c \<ge> 0 then
           (case assign_cols cops (3 * int i) (3 * int i + 3)
                   (slice2 packed window_start window_end_exclusive (9 * c) (9 * c + 3)) of
              Inl e \<Rightarrow> Inl e
            | Inr cops' \<Rightarrow>
           (case assign_cols torques (3 * int i) (3 * int i + 3)
                   (div_scalar (slice2 packed window_start window_end_exclusive
                                       (9 * c + 3) (9 * c + 6)) mass) of
              Inl e \<Rightarrow> Inl e
            | Inr torques' \<Rightarrow>
           (case assign_cols forces (3 * int i) (3 * int i + 3)
                   (div_scalar (slice2 packed window_start window_end_exclusive
                                       (9 * c + 6) (9 * c + 9)) mass) of
              Inl e \<Rightarrow> Inl e
            | Inr forces' \<Rightarrow> Inr (cops', torques', forces'))))
         else Inr (cops, torques, forces))"

fun fill_bodies ::
  "('a::inverse) trial_arrays \<Rightarrow> 'a \<Rightarrow> int \<Rightarrow> int \<Rightarrow> int list \<Rightarrow> nat list
     \<Rightarrow> 'a ndarray \<times> 'a ndarray \<times> 'a ndarray
     \<Rightarrow> error + ('a ndarray \<times> 'a ndarray \<times> 'a ndarray)" where
  "fill_bodies A mass window_start window_end_exclusive contact_indices [] st = Inr st"
| "fill_bodies A mass window_start window_end_exclusive contact_indices (i # rest) st =
     (case fill_body A mass window_start window_end_exclusive contact_indices i st of
        Inl e \<Rightarrow> Inl e
      | Inr st' \<Rightarrow>
          fill_bodies A mass window_start window_end_exclusive contact_indices rest st')"

text \<open>
  The body of the \<^verbatim>\<open>if not skip\<close> branch: the two numpy dicts, then their conversion
  to tensors. \<^verbatim>\<open>np.zeros\<close> is called three times with the same shape, so the first
  call decides whether it raises.
\<close>

definition make_window ::
  "('a::{zero,inverse}, 'sk, 'bn) env \<Rightarrow> ('a, 'sk, 'bn) dataset \<Rightarrow> ('a, 'sk) SubjectOnDisk
     \<Rightarrow> int \<Rightarrow> 'a trial_arrays \<Rightarrow> int \<Rightarrow> error + 'a window" where
  "make_window world self subject subject_index A window_start =
     (let window_end_exclusive = window_start + window_size self;
          numpy_input_dict =
            [(POS, slice_rows (pos A) window_start window_end_exclusive),
             (VEL, slice_rows (vel A) window_start window_end_exclusive),
             (ACC, slice_rows (acc_arr A) window_start window_end_exclusive),
             (JOINT_CENTERS_IN_ROOT_FRAME,
                slice_rows (joint_centers_in_root_frame A) window_start window_end_exclusive),
             (ROOT_LINEAR_VEL_IN_ROOT_FRAME,
                slice2 (root_spatial_vel_in_root_frame A) window_start window_end_exclusive 3 6),
             (ROOT_ANGULAR_VEL_IN_ROOT_FRAME,
                slice2 (root_spatial_vel_in_root_frame A) window_start window_end_exclusive 0 3),
             (ROOT_LINEAR_ACC_IN_ROOT_FRAME,
                slice2 (root_spatial_acc_in_root_frame A) window_start window_end_exclusive 3 6),
             (ROOT_ANGULAR_ACC_IN_ROOT_FRAME,
                slice2 (root_spatial_acc_in_root_frame A) window_start window_end_exclusive 0 3),
             (ROOT_POS_HISTORY_IN_ROOT_FRAME,
                slice_rows (root_pos_history A) window_start window_end_exclusive),
             (ROOT_EULER_HISTORY_IN_ROOT_FRAME,
                slice_rows (root_euler_history A) window_start window_end_exclusive)];
          mass = getMassKg subject
      in case np_zeros (window_end_exclusive - window_start)
                       (3 * int (length (contact_bodies self))) of
           Inl e \<Rightarrow> Inl e
         | Inr zeros \<Rightarrow>
             let contact_indices =
                   contact_indices_of (getGroundForceBodies subject) (contact_bodies self)
             in (case fill_bodies A mass window_start window_end_exclusive contact_indices
                        [0..<length (contact_bodies self)] (zeros, zeros, zeros) of
                  Inl e \<Rightarrow> Inl e
                | Inr (cops, torques, forces) \<Rightarrow>
                    let numpy_output_dict =
                          [(TAU, slice_rows (tau A) window_start window_end_exclusive),
                           (GROUND_CONTACT_WRENCHES_IN_ROOT_FRAME,
                              div_scalar (slice_rows (ground_contact_wrenches_in_root_frame A)
                                            window_start window_end_exclusive) mass),
                           (GROUND_CONTACT_COPS_IN_ROOT_FRAME, cops),
                           (GROUND_CONTACT_TORQUES_IN_ROOT_FRAME, torques),
                           (GROUND_CONTACT_FORCES_IN_ROOT_FRAME, forces),
                           (RESIDUAL_WRENCH_IN_ROOT_FRAME,
                              slice_rows (residual_wrench_in_root_frame A)
                                window_start window_end_exclusive),
                           (COM_ACC_IN_ROOT_FRAME,
                              slice_rows (com_acc_in_root_frame A)
                                window_start window_end_exclusive)];
                        input_dict =
                          map (\<lambda>(key, a). (key, torch_tensor (float32 world) a))
                              numpy_input_dict;
                        label_dict =
                          map (\<lambda>(key, a). (key, torch_tensor (float32 world) a))
                              numpy_output_dict
                    in Inr (input_dict, label_dict, subject_index)))"

text \<open>
  The loop over the candidate window starts of one trial. The state is the object and
  the local counter \<^verbatim>\<open>num_skipped\<close>.
\<close>

fun window_loop ::
  "('a::{zero,inverse}, 'sk, 'bn) env \<Rightarrow> ('a, 'sk) SubjectOnDisk \<Rightarrow> int \<Rightarrow> bool list
     \<Rightarrow> 'a trial_arrays \<Rightarrow> int list \<Rightarrow> ('a, 'sk, 'bn) dataset \<times> int
     \<Rightarrow> (('a, 'sk, 'bn) dataset \<times> int) outcome" where
  "window_loop world subject subject_index probably_missing A [] st = Returned st"
| "window_loop world subject subject_index probably_missing A (window_start # rest) st =
     (case st of (self, num_skipped) \<Rightarrow>
       (case window_has_missing probably_missing
               (py_range window_start (window_start + window_size self)) of
          Inl e \<Rightarrow> Raised e st
        | Inr skip \<Rightarrow>
            if \<not> skip then
              (case make_window world self subject subject_index A window_start of
                 Inl e \<Rightarrow> Raised e st
               | Inr w \<Rightarrow>
                   window_loop world subject subject_index probably_missing A rest
                     (self\<lparr>windows := windows self @ [w]\<rparr>, num_skipped))
            else window_loop world subject subject_index probably_missing A rest
                   (self, num_skipped + 1)))"

text \<open>
  One trial: the flags, the length, the passes (pass 0 and pass \<open>-1\<close> are read before
  any window is built), then the candidate starts
  \<^verbatim>\<open>range(max(trial_length - self.window_size + 1, 0))\<close>.
\<close>

definition process_trial ::
  "('a::{zero,inverse}, 'sk, 'bn) env \<Rightarrow> ('a, 'sk) SubjectOnDisk \<Rightarrow> int
     \<Rightarrow> 'a SubjectOnDiskTrial \<Rightarrow> ('a, 'sk, 'bn) dataset \<times> int
     \<Rightarrow> (('a, 'sk, 'bn) dataset \<times> int) outcome" where
  "process_trial world subject subject_index trial st =
     (let probably_missing = map (\<lambda>reason. reason \<noteq> notMissingGRF) (getMissingGRF trial);
          trial_length = int (getTrialLength trial);
          processing_passes = getPasses trial;
          input_pass_index = 0
      in case list_get processing_passes input_pass_index of
           Inl e \<Rightarrow> Raised e st
         | Inr input_pass \<Rightarrow>
        (case list_get processing_passes (- 1) of
           Inl e \<Rightarrow> Raised e st
         | Inr output_pass \<Rightarrow>
             window_loop world subject subject_index probably_missing
               (pull_arrays input_pass output_pass)
               (py_range 0 (max (trial_length - window_size (fst st) + 1) 0)) st))"

fun trial_loop ::
  "('a::{zero,inverse}, 'sk, 'bn) env \<Rightarrow> ('a, 'sk) SubjectOnDisk \<Rightarrow> int
     \<Rightarrow> 'a SubjectOnDiskTrial list \<Rightarrow> ('a, 'sk, 'bn) dataset \<times> int
     \<Rightarrow> (('a, 'sk, 'bn) dataset \<times> int) outcome" where
  "trial_loop world subject subject_index [] st = Returned st"
| "trial_loop world subject subject_index (trial # rest) st =
     (case process_trial world subject subject_index trial st of
        Raised e st' \<Rightarrow> Raised e st'
      | Returned st' \<Rightarrow> trial_loop world subject subject_index rest st')"

text \<open>
  One subject of the subset: \<^verbatim>\<open>np.random.seed\<close> takes a seed in \<open>[0, 2^32)\<close> only
  (nothing in the module draws a random number afterwards), then the recording at
  \<^verbatim>\<open>self.subject_paths[subject_index]\<close> is opened and its trials are walked.
\<close>

definition process_subject ::
  "('a::{zero,inverse}, 'sk, 'bn) env \<Rightarrow> int \<Rightarrow> ('a, 'sk, 'bn) dataset \<times> int
     \<Rightarrow> (('a, 'sk, 'bn) dataset \<times> int) outcome" where
  "process_subject world subject_index st =
     (if subject_index < 0 \<or> 2 ^ 32 \<le> subject_index then Raised ValueError st
      else case list_get (subject_paths (fst st)) subject_index of
             Inl e \<Rightarrow> Raised e st
           | Inr path \<Rightarrow>
               let subject = openSubject world path
               in trial_loop world subject subject_index (getTrials subject) st)"

fun subject_loop ::
  "('a::{zero,inverse}, 'sk, 'bn) env \<Rightarrow> int list \<Rightarrow> ('a, 'sk, 'bn) dataset \<times> int
     \<Rightarrow> (('a, 'sk, 'bn) dataset \<times> int) outcome" where
  "subject_loop world [] st = Returned st"
| "subject_loop world (subject_index # rest) st =
     (case process_subject world subject_index st of
        Raised e st' \<Rightarrow> Raised e st'
      | Returned st' \<Rightarrow> subject_loop world rest st')"

text \<open>
  The subset walked: the list given, or every index of \<^verbatim>\<open>subject_paths\<close>.
\<close>

definition subset_list :: "('a, 'sk, 'bn) dataset \<Rightarrow> int list option \<Rightarrow> int list" where
  "subset_list self subset_indices =
     (case subset_indices of
        None \<Rightarrow> py_range 0 (int (length (subject_paths self)))
      | Some given \<Rightarrow> given)"

text \<open>
  The method returns nothing; the model gives the object it leaves behind and the
  final value of \<^verbatim>\<open>num_skipped\<close>, which the method drops.
\<close>

definition prepare_data_for_subset ::
  "('a::{zero,inverse}, 'sk, 'bn) env \<Rightarrow> ('a, 'sk, 'bn) dataset \<Rightarrow> int list option
     \<Rightarrow> (('a, 'sk, 'bn) dataset \<times> int) outcome" where
  "prepare_data_for_subset world self subset_indices =
     subject_loop world (subset_list self subset_indices) (self\<lparr>windows := []\<rparr>, 0)"

section \<open>Notions used to state the properties\<close>

text \<open>
  The names of a list in first-seen order: each name is kept where it first occurs
  and its later occurrences are dropped.
\<close>

fun first_seen :: "'x list \<Rightarrow> 'x list" where
  "first_seen [] = []"
| "first_seen (x # xs) = x # first_seen (filter (\<lambda>y. y \<noteq> x) xs)"

text \<open>What one trial gives the window loop: its flags, its candidate starts, its arrays.\<close>

definition trial_flags :: "'a SubjectOnDiskTrial \<Rightarrow> bool list" where
  "trial_flags trial = map (\<lambda>reason. reason \<noteq> notMissingGRF) (getMissingGRF trial)"

definition trial_starts :: "int \<Rightarrow> 'a SubjectOnDiskTrial \<Rightarrow> int list" where
  "trial_starts ws trial = py_range 0 (max (int (getTrialLength trial) - ws + 1) 0)"

definition arrays_of :: "'a SubjectOnDiskTrial \<Rightarrow> 'a trial_arrays" where
  "arrays_of trial = pull_arrays (hd (getPasses trial)) (last (getPasses trial))"

definition subject_at ::
  "('a, 'sk, 'bn) env \<Rightarrow> ('a, 'sk, 'bn) dataset \<Rightarrow> int \<Rightarrow> ('a, 'sk) SubjectOnDisk" where
  "subject_at world self subject_index =
     openSubject world (subject_paths self ! nat subject_index)"

text \<open>
  The state after a loop is the state before it with windows appended, each of them
  satisfying \<open>P\<close>.
\<close>

definition grows ::
  "('a window \<Rightarrow> bool) \<Rightarrow> ('a, 'sk, 'bn) dataset \<times> int
     \<Rightarrow> (('a, 'sk, 'bn) dataset \<times> int) outcome \<Rightarrow> bool" where
  "grows P st r \<longleftrightarrow>
     (\<exists>W. fst (state_of r) = (fst st)\<lparr>windows := windows (fst st) @ W\<rparr> \<and> list_all P W)"

text \<open>
  Where a window comes from: a subject of the subset, one of its trials, and a
  candidate start of that trial whose frames were all found unflagged and at which
  the window was built.
\<close>

definition window_origin ::
  "('a::{zero,inverse}, 'sk, 'bn) env \<Rightarrow> ('a, 'sk, 'bn) dataset \<Rightarrow> int list \<Rightarrow> 'a window
     \<Rightarrow> int \<Rightarrow> 'a SubjectOnDiskTrial \<Rightarrow> int \<Rightarrow> bool" where
  "window_origin world self indices w subject_index trial window_start \<longleftrightarrow>
     subject_index \<in> set indices \<and>
     0 \<le> subject_index \<and> subject_index < int (length (subject_paths self)) \<and>
     trial \<in> set (getTrials (subject_at world self subject_index)) \<and>
     getPasses trial \<noteq> [] \<and>
     window_start \<in> set (trial_starts (window_size self) trial) \<and>
     window_has_missing (trial_flags trial)
       (py_range window_start (window_start + window_size self)) = Inr False \<and>
     make_window world self (subject_at world self subject_index) subject_index
       (arrays_of trial) window_start = Inr w"

text \<open>Reading a window: an input tensor, a label tensor, the 3-wide block of a body.\<close>

definition input_of :: "'a window \<Rightarrow> string \<Rightarrow> 'a ndarray option" where
  "input_of w key = map_of (fst w) key"

definition label_of :: "'a window \<Rightarrow> string \<Rightarrow> 'a ndarray option" where
  "label_of w key = map_of (fst (snd w)) key"

definition block :: "'a ndarray \<Rightarrow> nat \<Rightarrow> 'a ndarray" where
  "block a i = slice_cols a (3 * int i) (3 * int i + 3)"

subsection \<open>A small recording source\<close>

text \<open>
  Two recordings under a directory, used to run the model: the first has a flagged
  frame and a repeated body name, the second lacks the body \<^verbatim>\<open>calcn_l\<close> and has a
  body of its own.
\<close>

definition demo_array :: "nat \<Rightarrow> nat \<Rightarrow> nat \<Rightarrow> rat ndarray" where
  "demo_array d T base =
     \<lparr>ncols = T, rows = map (\<lambda>i. map (\<lambda>j. of_nat (base + 10 * i + j)) [0..<T]) [0..<d]\<rparr>"

definition demo_pass :: "nat \<Rightarrow> nat \<Rightarrow> nat \<Rightarrow> rat SubjectOnDiskTrialPass" where
  "demo_pass nb T base =
     \<lparr>getPoses = demo_array 2 T base,
      getVels = demo_array 2 T (base + 1000),
      getAccs = demo_array 2 T (base + 2000),
      getJointCentersInRootFrame = demo_array 3 T (base + 3000),
      getRootSpatialVelInRootFrame = demo_array 6 T (base + 4000),
      getRootSpatialAccInRootFrame = demo_array 6 T (base + 5000),
      getRootPosHistoryInRootFrame = demo_array 3 T (base + 6000),
      getRootEulerHistoryInRootFrame = demo_array 3 T (base + 7000),
      getTaus = demo_array 2 T (base + 8000),
      getGroundBodyWrenchesInRootFrame = demo_array (6 * nb) T (base + 9000),
      getGroundBodyCopTorqueForceInRootFrame = demo_array (9 * nb) T (base + 10000),
      getComAccsInRootFrame = demo_array 3 T (base + 11000),
      getResidualWrenchInRootFrame = demo_array 6 T (base + 12000)\<rparr>"

definition demo_trial_a :: "rat SubjectOnDiskTrial" where
  "demo_trial_a =
     \<lparr>getMissingGRF = [otherReason 1, notMissingGRF, notMissingGRF],
      getTrialLength = 3,
      getPasses = [demo_pass 4 3 0, demo_pass 4 3 500]\<rparr>"

definition demo_trial_b :: "rat SubjectOnDiskTrial" where
  "demo_trial_b =
     \<lparr>getMissingGRF = [notMissingGRF, notMissingGRF],
      getTrialLength = 2,
      getPasses = [demo_pass 2 2 700]\<rparr>"

definition demo_subject_a :: "(rat, nat) SubjectOnDisk" where
  "demo_subject_a =
     \<lparr>getNumDofs = 2, getNumJoints = 1,
      getGroundForceBodies = [''calcn_l'', ''pelvis'', ''calcn_r'', ''calcn_l''],
      getMassKg = 70,
      getTrials = [demo_trial_a],
      getNumProcessingPasses = 2,
      readSkel = (\<lambda>pass_index folder. 0)\<rparr>"

definition demo_subject_b :: "(rat, nat) SubjectOnDisk" where
  "demo_subject_b =
     \<lparr>getNumDofs = 2, getNumJoints = 1,
      getGroundForceBodies = [''calcn_r'', ''toes_r''],
      getMassKg = 50,
      getTrials = [demo_trial_b],
      getNumProcessingPasses = 1,
      readSkel = (\<lambda>pass_index folder. 1)\<rparr>"

definition demo_world :: "(rat, nat, nat \<times> string) env" where
  "demo_world =
     \<lparr>isdir = (\<lambda>path. path = ''data''),
      walk = (\<lambda>path. [(''data'', [''sub''], [''a.b3d'', ''readme.txt'']),
                       (''data/sub'', [], [''b.b3d''])]),
      openSubject = (\<lambda>path. if path = ''data/a.b3d'' then demo_subject_a else demo_subject_b),
      getBodyNode = (\<lambda>skeleton body. (skeleton, body)),
      float32 = (\<lambda>x. x)\<rparr>"

definition demo_dataset :: "(rat, nat, nat \<times> string) dataset" where
  "demo_dataset =
     \<lparr>subject_paths = [''data/a.b3d'', ''data/sub/b.b3d''], window_size = 2,
      geometry_folder = ''geometry'', device = ''cpu'', windows = [],
      num_dofs = Some 2, num_joints = Some 1, contact_bodies = [''calcn_l'', ''calcn_r''],
      skeletons = [0, 1],
      skeletons_contact_bodies =
        [[(0, ''calcn_l''), (0, ''calcn_r'')], [(1, ''calcn_l''), (1, ''calcn_r'')]]\<rparr>"

subsection \<open>Candidate windows and well-formed recordings\<close>

text \<open>
  A candidate window of a trial is flagged when some frame of its range
  \<open>[start, start + window_size)\<close> has a flag and the flag says the ground truth is
  missing.
\<close>

definition candidate_flagged :: "int \<Rightarrow> 'a SubjectOnDiskTrial \<Rightarrow> int \<Rightarrow> bool" where
  "candidate_flagged ws trial window_start \<longleftrightarrow>
     list_ex (\<lambda>i. i < int (length (trial_flags trial)) \<and> trial_flags trial ! nat i)
             (py_range window_start (window_start + ws))"

text \<open>
  The candidate windows of a subset: for each subject index in turn, for each trial in
  turn, the starts \<open>0 .. trial_length - window_size\<close>.
\<close>

definition trial_candidates ::
  "int \<Rightarrow> 'a SubjectOnDiskTrial list \<Rightarrow> ('a SubjectOnDiskTrial \<times> int) list" where
  "trial_candidates ws trials =
     concat (map (\<lambda>trial. map (\<lambda>window_start. (trial, window_start)) (trial_starts ws trial))
                 trials)"

definition candidates ::
  "('a, 'sk, 'bn) env \<Rightarrow> ('a, 'sk, 'bn) dataset \<Rightarrow> int list
     \<Rightarrow> ('a SubjectOnDiskTrial \<times> int) list" where
  "candidates world self indices =
     concat (map (\<lambda>subject_index.
                    trial_candidates (window_size self)
                      (getTrials (subject_at world self subject_index)))
                 indices)"

definition flagged_candidates ::
  "int \<Rightarrow> ('a SubjectOnDiskTrial \<times> int) list \<Rightarrow> ('a SubjectOnDiskTrial \<times> int) list" where
  "flagged_candidates ws cs =
     filter (\<lambda>(trial, window_start). candidate_flagged ws trial window_start) cs"

text \<open>
  The recording library's contract on shapes: in every pass of every trial, each array
  has one column per frame of the trial (the module transposes it, so that frames become
  rows), and the packed centre-of-pressure, torque and force array has nine rows per
  contact body of the subject.
\<close>

definition pass_frames :: "nat \<Rightarrow> 'a SubjectOnDiskTrialPass \<Rightarrow> bool" where
  "pass_frames T p \<longleftrightarrow>
     ncols (getPoses p) = T \<and> ncols (getVels p) = T \<and> ncols (getAccs p) = T \<and>
     ncols (getJointCentersInRootFrame p) = T \<and>
     ncols (getRootSpatialVelInRootFrame p) = T \<and>
     ncols (getRootSpatialAccInRootFrame p) = T \<and>
     ncols (getRootPosHistoryInRootFrame p) = T \<and>
     ncols (getRootEulerHistoryInRootFrame p) = T \<and>
     ncols (getTaus p) = T \<and>
     ncols (getGroundBodyWrenchesInRootFrame p) = T \<and>
     ncols (getGroundBodyCopTorqueForceInRootFrame p) = T \<and>
     ncols (getComAccsInRootFrame p) = T \<and>
     ncols (getResidualWrenchInRootFrame p) = T"

definition subject_shapes :: "('a, 'sk) SubjectOnDisk \<Rightarrow> bool" where
  "subject_shapes subject \<longleftrightarrow>
     list_all (\<lambda>trial.
        list_all (\<lambda>p. pass_frames (getTrialLength trial) p \<and>
                       nrows (getGroundBodyCopTorqueForceInRootFrame p)
                         = 9 * length (getGroundForceBodies subject))
                 (getPasses trial))
       (getTrials subject)"

definition recording_shapes :: "('a, 'sk, 'bn) env \<Rightarrow> ('a, 'sk, 'bn) dataset \<Rightarrow> bool" where
  "recording_shapes world self \<longleftrightarrow>
     list_all (\<lambda>path. subject_shapes (openSubject world path)) (subject_paths self)"

subsection \<open>Shapes of the per-body output arrays\<close>

text \<open>
  The three per-body arrays of a window under construction have \<open>3 * n\<close> columns for a
  registry of \<open>n\<close> names and one row per frame; \<open>written w src b\<close> says that the 3-wide
  block \<open>b\<close> holds \<open>src\<close> as numpy broadcasts it to \<open>w\<close> rows of 3.
\<close>

definition per_body_shape :: "nat \<Rightarrow> nat \<Rightarrow> 'a ndarray \<Rightarrow> bool" where
  "per_body_shape n w a \<longleftrightarrow> ncols a = 3 * n \<and> nrows a = w \<and> regular a"

definition written :: "nat \<Rightarrow> 'a ndarray \<Rightarrow> 'a ndarray \<Rightarrow> bool" where
  "written w src b \<longleftrightarrow> (\<exists>vals. broadcast_to w 3 src = Inr vals \<and> b = \<lparr>ncols = 3, rows = vals\<rparr>)"

definition shapes3 :: "nat \<Rightarrow> nat \<Rightarrow> 'a ndarray \<times> 'a ndarray \<times> 'a ndarray \<Rightarrow> bool" where
  "shapes3 n w st \<longleftrightarrow>
     per_body_shape n w (fst st) \<and> per_body_shape n w (fst (snd st))
     \<and> per_body_shape n w (snd (snd st))"

definition blocks3 ::
  "'a ndarray \<times> 'a ndarray \<times> 'a ndarray \<Rightarrow> nat \<Rightarrow> 'a ndarray \<times> 'a ndarray \<times> 'a ndarray" where
  "blocks3 st i = (block (fst st) i, block (fst (snd st)) i, block (snd (snd st)) i)"

definition written3 ::
  "nat \<Rightarrow> ('a::inverse) trial_arrays \<Rightarrow> 'a \<Rightarrow> int \<Rightarrow> int \<Rightarrow> int
     \<Rightarrow> 'a ndarray \<times> 'a ndarray \<times> 'a ndarray \<Rightarrow> bool" where
  "written3 w A mass s e c b \<longleftrightarrow>
     written w (slice2 (ground_contact_cop_torque_force_in_root_frame A) s e (9 * c) (9 * c + 3))
       (fst b)
     \<and> written w (div_scalar (slice2 (ground_contact_cop_torque_force_in_root_frame A) s e
                                (9 * c + 3) (9 * c + 6)) mass) (fst (snd b))
     \<and> written w (div_scalar (slice2 (ground_contact_cop_torque_force_in_root_frame A) s e
                                (9 * c + 6) (9 * c + 9)) mass) (snd (snd b))"

section \<open>Properties of the constructor\<close>

lemma demo_discover:
  "discover demo_world ''data'' = Inr [''data/a.b3d'', ''data/sub/b.b3d'']"
  by (simp add: discover_def demo_world_def endswith_def path_join_def)

lemma demo_init:
  "init demo_world ''data'' 2 ''geometry'' ''cpu'' False False = Inr demo_dataset"
  unfolding init_def demo_discover
  by (simp add: demo_world_def demo_subject_a_def demo_subject_b_def demo_dataset_def Let_def)

lemma init_windows:
  assumes "init world data_path ws gf dev testing skip = Inr self"
  shows "windows self = []"
proof (cases "discover world data_path")
  case (Inl e)
  with assms show ?thesis by (simp add: init_def)
next
  case (Inr paths)
  with assms show ?thesis
    by (auto simp: init_def Let_def split: if_splits)
qed

text \<open>
  C6. A path that is not a directory and does not end with \<^verbatim>\<open>.b3d\<close> makes the
  constructor fail: the \<^verbatim>\<open>assert\<close> raises (Python's AssertionError is the invalid
  input error of this module).
\<close>

theorem init_rejects_other_extension:
  assumes "\<not> isdir world data_path" and "\<not> endswith data_path ''.b3d''"
  shows "init world data_path ws gf dev testing skip = Inl AssertionError"
  using assms by (simp add: init_def discover_def)

theorem init_rejects_other_extension_witness:
  "init demo_world ''data/a.bin'' 2 ''geometry'' ''cpu'' False False = Inl AssertionError"
proof -
  have 1: "\<not> isdir demo_world ''data/a.bin''" by (simp add: demo_world_def)
  have 2: "\<not> endswith ''data/a.bin'' ''.b3d''" by (simp add: endswith_def)
  show ?thesis by (rule init_rejects_other_extension[OF 1 2])
qed

text \<open>
  C10. Right after construction the window store is empty: \<^verbatim>\<open>__len__\<close> gives 0 and
  \<^verbatim>\<open>__getitem__\<close> raises IndexError at every index, whatever the flag
  \<^verbatim>\<open>testing_with_short_dataset\<close> is, so the truncation to 100 windows cut nothing.
\<close>

theorem init_store_empty:
  assumes "init world data_path ws gf dev testing skip = Inr self"
  shows "len self = 0 \<and> windows self = [] \<and> getitem self index = Inl IndexError"
  using init_windows[OF assms] by (simp add: len_def getitem_def list_get_def)

theorem init_store_empty_witness:
  "len demo_dataset = 0 \<and> windows demo_dataset = []
     \<and> getitem demo_dataset (- 1) = Inl IndexError"
  by (rule init_store_empty[OF demo_init])

subsection \<open>The contact-body registry\<close>

lemma add_contact_bodies_eq:
  "add_contact_bodies raw registry =
     registry @ first_seen (filter (\<lambda>b. b \<noteq> ''pelvis'' \<and> b \<notin> set registry) raw)"
proof (induction raw arbitrary: registry)
  case Nil
  show ?case by simp
next
  case (Cons body rest)
  have eq: "(\<lambda>b. b \<noteq> ''pelvis'' \<and> b \<notin> set (registry @ [body]))
          = (\<lambda>b. (b \<noteq> ''pelvis'' \<and> b \<notin> set registry) \<and> b \<noteq> body)"
    by auto
  show ?case
    by (simp add: Cons.IH eq del: filter_filter)
       (simp add: conj_commute)
qed

lemma set_first_seen [simp]: "set (first_seen xs) = set xs"
proof (induction xs rule: first_seen.induct)
  case 1
  show ?case by simp
next
  case (2 x xs)
  then show ?case by auto
qed

lemma distinct_first_seen [simp]: "distinct (first_seen xs)"
  by (induction xs rule: first_seen.induct) auto

lemma init_contact_bodies:
  assumes "init world data_path ws gf dev testing skip = Inr self"
    and "discover world data_path = Inr paths"
  shows "contact_bodies self =
           (if paths = [] then []
            else first_seen (filter (\<lambda>b. b \<noteq> ''pelvis'')
                   (getGroundForceBodies (openSubject world (paths ! 0)))))"
  using assms
  by (auto simp: init_def Let_def add_contact_bodies_eq split: if_splits)

text \<open>
  C3. When at least one recording was found, the registry is the raw contact-body
  list of the first one, in first-seen order, without \<^verbatim>\<open>pelvis\<close> and without
  repetitions; a name that only a later recording has is not in it.
\<close>

theorem registry_from_first_subject:
  assumes "init world data_path ws gf dev testing skip = Inr self"
    and "discover world data_path = Inr (first_path # later_paths)"
  shows "contact_bodies self =
           first_seen (filter (\<lambda>body. body \<noteq> ''pelvis'')
             (getGroundForceBodies (openSubject world first_path)))
         \<and> (\<forall>path \<in> set later_paths.
              \<forall>body \<in> set (getGroundForceBodies (openSubject world path)).
                body \<notin> set (getGroundForceBodies (openSubject world first_path))
                  \<longrightarrow> body \<notin> set (contact_bodies self))"
  using init_contact_bodies[OF assms] by simp

theorem registry_from_first_subject_witness:
  "contact_bodies demo_dataset = [''calcn_l'', ''calcn_r'']
   \<and> ''toes_r'' \<in> set (getGroundForceBodies demo_subject_b)
   \<and> ''toes_r'' \<notin> set (contact_bodies demo_dataset)"
  using registry_from_first_subject[OF demo_init demo_discover]
  by (simp add: demo_world_def demo_subject_a_def demo_subject_b_def)

section \<open>The window loops\<close>

text \<open>
  The loops of \<^verbatim>\<open>prepare_data_for_subset\<close> only append to the window list, and each
  window they append was built at a candidate start of a trial of a subject of the subset.
\<close>

lemma make_window_windows [simp]:
  "make_window world (self\<lparr>windows := W\<rparr>) subject si A start = make_window world self subject si A start"
  by (simp add: make_window_def cong: sum.case_cong)

lemma grows_same: "state_of r = st \<Longrightarrow> grows P st r"
  unfolding grows_def by (intro exI[of _ "[]"]) simp

lemma grows_step:
  assumes "P w" and "grows P (self\<lparr>windows := windows self @ [w]\<rparr>, k') r"
  shows "grows P (self, k) r"
proof -
  from assms(2) obtain W where W: "fst (state_of r) = self\<lparr>windows := (windows self @ [w]) @ W\<rparr>" "list_all P W"
    unfolding grows_def by auto
  show ?thesis unfolding grows_def
    by (rule exI[of _ "w # W"]) (use W assms(1) in simp)
qed

lemma grows_skip: "grows P (self, k') r \<Longrightarrow> grows P (self, k) r"
  unfolding grows_def by simp

lemma grows_trans:
  assumes "grows P st (Returned st')" and "grows P st' r"
  shows "grows P st r"
proof -
  from assms(1) obtain W1 where W1: "fst st' = (fst st)\<lparr>windows := windows (fst st) @ W1\<rparr>" "list_all P W1"
    unfolding grows_def by auto
  from assms(2) obtain W2 where W2: "fst (state_of r) = (fst st')\<lparr>windows := windows (fst st') @ W2\<rparr>" "list_all P W2"
    unfolding grows_def by auto
  show ?thesis unfolding grows_def
    by (rule exI[of _ "W1 @ W2"]) (use W1 W2 in simp)
qed

lemma grows_fields:
  assumes "grows P st r"
  shows "window_size (fst (state_of r)) = window_size (fst st)"
    and "subject_paths (fst (state_of r)) = subject_paths (fst st)"
    and "contact_bodies (fst (state_of r)) = contact_bodies (fst st)"
    and "(fst (state_of r))\<lparr>windows := X\<rparr> = (fst st)\<lparr>windows := X\<rparr>"
  using assms unfolding grows_def by auto

lemma window_loop_grows:
  assumes "\<And>start w. start \<in> set starts \<Longrightarrow>
             window_has_missing pm (py_range start (start + window_size self)) = Inr False \<Longrightarrow>
             make_window world self subject si A start = Inr w \<Longrightarrow> P w"
  shows "grows P (self, k) (window_loop world subject si pm A starts (self, k))"
  using assms
proof (induction starts arbitrary: self k)
  case Nil
  show ?case by (rule grows_same) simp
next
  case (Cons start rest)
  show ?case
  proof (cases "window_has_missing pm (py_range start (start + window_size self))")
    case (Inl e)
    then show ?thesis by (intro grows_same) simp
  next
    case (Inr skip)
    show ?thesis
    proof (cases skip)
      case True
      have "grows P (self, k + 1) (window_loop world subject si pm A rest (self, k + 1))"
        by (rule Cons.IH) (rule Cons.prems, auto)
      then have "grows P (self, k) (window_loop world subject si pm A rest (self, k + 1))"
        by (rule grows_skip)
      with Inr True show ?thesis by simp
    next
      case False
      show ?thesis
      proof (cases "make_window world self subject si A start")
        case (Inl e)
        with Inr False show ?thesis by (intro grows_same) simp
      next
        case mk: (Inr w)
        let ?self' = "self\<lparr>windows := windows self @ [w]\<rparr>"
        have Pw: "P w" using Cons.prems[of start w] Inr False mk by simp
        have "grows P (?self', k) (window_loop world subject si pm A rest (?self', k))"
          by (rule Cons.IH) (rule Cons.prems, auto)
        then have "grows P (self, k) (window_loop world subject si pm A rest (?self', k))"
          using Pw by (rule grows_step[rotated])
        with Inr False mk show ?thesis by simp
      qed
    qed
  qed
qed

lemma list_get_first: "list_get xs 0 = Inr x \<Longrightarrow> xs \<noteq> [] \<and> x = hd xs"
  by (cases xs) (auto simp: list_get_def split: if_splits)

lemma list_get_last: "list_get xs (- 1) = Inr x \<Longrightarrow> xs \<noteq> [] \<and> x = last xs"
  by (cases xs rule: rev_cases) (auto simp: list_get_def split: if_splits)

lemma process_trial_unfold:
  assumes "list_get (getPasses trial) 0 = Inr input_pass"
    and "list_get (getPasses trial) (- 1) = Inr output_pass"
  shows "process_trial world subject si trial (self, k) =
         window_loop world subject si (trial_flags trial) (arrays_of trial)
           (trial_starts (window_size self) trial) (self, k)"
proof -
  have "input_pass = hd (getPasses trial)" "output_pass = last (getPasses trial)"
    using list_get_first[OF assms(1)] list_get_last[OF assms(2)] by simp_all
  then show ?thesis
    using assms
    by (simp add: process_trial_def trial_flags_def trial_starts_def arrays_of_def Let_def)
qed

lemma process_trial_grows:
  assumes "\<And>start w. getPasses trial \<noteq> [] \<Longrightarrow> start \<in> set (trial_starts (window_size self) trial) \<Longrightarrow>
             window_has_missing (trial_flags trial) (py_range start (start + window_size self)) = Inr False \<Longrightarrow>
             make_window world self subject si (arrays_of trial) start = Inr w \<Longrightarrow> P w"
  shows "grows P (self, k) (process_trial world subject si trial (self, k))"
proof (cases "list_get (getPasses trial) 0")
  case (Inl e)
  then show ?thesis by (intro grows_same) (simp add: process_trial_def)
next
  case first: (Inr input_pass)
  show ?thesis
  proof (cases "list_get (getPasses trial) (- 1)")
    case (Inl e)
    with first show ?thesis by (intro grows_same) (simp add: process_trial_def)
  next
    case lst: (Inr output_pass)
    have ne: "getPasses trial \<noteq> []"
      using list_get_first[OF first] by simp
    have "grows P (self, k)
        (window_loop world subject si (trial_flags trial) (arrays_of trial)
           (trial_starts (window_size self) trial) (self, k))"
      by (rule window_loop_grows) (rule assms[OF ne])
    then show ?thesis
      by (simp only: process_trial_unfold[OF first lst])
  qed
qed

lemma trial_loop_grows:
  assumes "\<And>trial start w. trial \<in> set trials \<Longrightarrow> getPasses trial \<noteq> [] \<Longrightarrow>
             start \<in> set (trial_starts (window_size self) trial) \<Longrightarrow>
             window_has_missing (trial_flags trial) (py_range start (start + window_size self)) = Inr False \<Longrightarrow>
             make_window world self subject si (arrays_of trial) start = Inr w \<Longrightarrow> P w"
  shows "grows P (self, k) (trial_loop world subject si trials (self, k))"
  using assms
proof (induction trials arbitrary: self k)
  case Nil
  show ?case by (rule grows_same) simp
next
  case (Cons trial rest)
  have step: "grows P (self, k) (process_trial world subject si trial (self, k))"
    by (rule process_trial_grows) (rule Cons.prems, auto)
  show ?case
  proof (cases "process_trial world subject si trial (self, k)")
    case (Raised e st')
    with step show ?thesis by simp
  next
    case (Returned st')
    obtain self' k' where st': "st' = (self', k')" by (cases st')
    from step Returned st' obtain W where W: "self' = self\<lparr>windows := windows self @ W\<rparr>"
      unfolding grows_def by auto
    have "grows P (self', k') (trial_loop world subject si rest (self', k'))"
      by (rule Cons.IH) (rule Cons.prems, auto simp: W)
    moreover from step Returned st' have "grows P (self, k) (Returned (self', k'))" by simp
    ultimately have "grows P (self, k) (trial_loop world subject si rest (self', k'))"
      by (rule grows_trans[rotated])
    with Returned st' show ?thesis by simp
  qed
qed


lemma list_get_in_range:
  "0 \<le> i \<Longrightarrow> list_get xs i = Inr x \<Longrightarrow> i < int (length xs) \<and> x = xs ! nat i"
  by (auto simp: list_get_def split: if_splits)

lemma process_subject_grows:
  assumes "\<And>trial start w. 0 \<le> si \<Longrightarrow> si < int (length (subject_paths self)) \<Longrightarrow>
             trial \<in> set (getTrials (subject_at world self si)) \<Longrightarrow> getPasses trial \<noteq> [] \<Longrightarrow>
             start \<in> set (trial_starts (window_size self) trial) \<Longrightarrow>
             window_has_missing (trial_flags trial) (py_range start (start + window_size self)) = Inr False \<Longrightarrow>
             make_window world self (subject_at world self si) si (arrays_of trial) start = Inr w \<Longrightarrow> P w"
  shows "grows P (self, k) (process_subject world si (self, k))"
proof (cases "si < 0 \<or> 2 ^ 32 \<le> si")
  case True
  then show ?thesis by (intro grows_same) (simp add: process_subject_def)
next
  case False
  then have nonneg: "0 \<le> si" by simp
  show ?thesis
  proof (cases "list_get (subject_paths self) si")
    case (Inl e)
    with False show ?thesis by (intro grows_same) (simp add: process_subject_def)
  next
    case (Inr path)
    from list_get_in_range[OF nonneg Inr]
    have lt: "si < int (length (subject_paths self))" and path: "openSubject world path = subject_at world self si"
      by (simp_all add: subject_at_def)
    have "grows P (self, k)
            (trial_loop world (subject_at world self si) si (getTrials (subject_at world self si)) (self, k))"
      by (rule trial_loop_grows) (rule assms[OF nonneg lt])
    with False Inr path show ?thesis by (simp add: process_subject_def Let_def)
  qed
qed

lemma subject_at_windows [simp]: "subject_at world (self\<lparr>windows := W\<rparr>) si = subject_at world self si"
  by (simp add: subject_at_def)

lemma subject_loop_grows:
  assumes "\<And>si trial start w. si \<in> set indices \<Longrightarrow> 0 \<le> si \<Longrightarrow> si < int (length (subject_paths self)) \<Longrightarrow>
             trial \<in> set (getTrials (subject_at world self si)) \<Longrightarrow> getPasses trial \<noteq> [] \<Longrightarrow>
             start \<in> set (trial_starts (window_size self) trial) \<Longrightarrow>
             window_has_missing (trial_flags trial) (py_range start (start + window_size self)) = Inr False \<Longrightarrow>
             make_window world self (subject_at world self si) si (arrays_of trial) start = Inr w \<Longrightarrow> P w"
  shows "grows P (self, k) (subject_loop world indices (self, k))"
  using assms
proof (induction indices arbitrary: self k)
  case Nil
  show ?case by (rule grows_same) simp
next
  case (Cons si rest)
  have step: "grows P (self, k) (process_subject world si (self, k))"
    by (rule process_subject_grows) (rule Cons.prems, auto)
  show ?case
  proof (cases "process_subject world si (self, k)")
    case (Raised e st')
    with step show ?thesis by simp
  next
    case (Returned st')
    obtain self' k' where st': "st' = (self', k')" by (cases st')
    from step Returned st' obtain W where W: "self' = self\<lparr>windows := windows self @ W\<rparr>"
      unfolding grows_def by auto
    have "grows P (self', k') (subject_loop world rest (self', k'))"
      by (rule Cons.IH) (rule Cons.prems, auto simp: W)
    moreover from step Returned st' have "grows P (self, k) (Returned (self', k'))" by simp
    ultimately have "grows P (self, k) (subject_loop world rest (self', k'))"
      by (rule grows_trans[rotated])
    with Returned st' show ?thesis by simp
  qed
qed

lemma window_origin_windows [simp]:
  "window_origin world (self\<lparr>windows := W\<rparr>) indices w si trial start
     = window_origin world self indices w si trial start"
  by (simp add: window_origin_def)

lemma subset_list_windows [simp]:
  "subset_list (self\<lparr>windows := W\<rparr>) subset_indices = subset_list self subset_indices"
  by (simp add: subset_list_def split: option.splits)

lemma prepare_grows:
  "grows (\<lambda>w. \<exists>si trial start. window_origin world self (subset_list self subset_indices) w si trial start)
     (self\<lparr>windows := []\<rparr>, 0) (prepare_data_for_subset world self subset_indices)"
  unfolding prepare_data_for_subset_def
proof (rule subject_loop_grows, goal_cases)
  case (1 si trial start w)
  then have "window_origin world (self\<lparr>windows := []\<rparr>) (subset_list self subset_indices) w si trial start"
    unfolding window_origin_def by simp
  then show ?case by (auto simp del: ex_simps)
qed

lemma prepare_windows:
  "\<exists>W. fst (state_of (prepare_data_for_subset world self subset_indices)) = self\<lparr>windows := W\<rparr>
       \<and> (\<forall>w\<in>set W. \<exists>si trial start.
             window_origin world self (subset_list self subset_indices) w si trial start)"
  using prepare_grows[of world self subset_indices]
  unfolding grows_def by (auto simp: list_all_iff)

lemma materialized_origin:
  assumes "w \<in> set (windows (fst (state_of (prepare_data_for_subset world self subset_indices))))"
  shows "\<exists>si trial start. window_origin world self (subset_list self subset_indices) w si trial start"
proof -
  from prepare_windows[of world self subset_indices] obtain W where
    W: "fst (state_of (prepare_data_for_subset world self subset_indices)) = self\<lparr>windows := W\<rparr>"
       and all: "\<forall>w\<in>set W. \<exists>si trial start.
             window_origin world self (subset_list self subset_indices) w si trial start"
    by blast
  from assms W have "w \<in> set W" by simp
  with all show ?thesis by blast
qed

section \<open>Replacement and determinism of the window store\<close>

lemma make_window_subject_index:
  assumes "make_window world self subject si A start = Inr w"
  shows "snd (snd w) = si"
proof (cases "np_zeros (start + window_size self - start) (3 * int (length (contact_bodies self))) :: error + 'a ndarray")
  case (Inl e)
  with assms show ?thesis by (simp add: make_window_def)
next
  case (Inr zeros)
  show ?thesis
  proof (cases "fill_bodies A (getMassKg subject) start (start + window_size self)
                  (contact_indices_of (getGroundForceBodies subject) (contact_bodies self))
                  [0..<length (contact_bodies self)] (zeros, zeros, zeros)")
    case (Inl e)
    with assms Inr show ?thesis by (simp add: make_window_def Let_def)
  next
    case filled: (Inr st)
    obtain cops torques forces where st: "st = (cops, torques, forces)" by (cases st)
    from assms Inr filled st show ?thesis by (auto simp: make_window_def Let_def)
  qed
qed

lemma prepare_ignores_windows:
  "prepare_data_for_subset world (self\<lparr>windows := W\<rparr>) subset_indices
     = prepare_data_for_subset world self subset_indices"
  by (simp add: prepare_data_for_subset_def)

text \<open>
  C9. A call starts from an empty store whatever the store held before (its outcome is
  the one it has on the object with no windows), every window of the resulting store
  was built for a subject of the requested subset and carries that subject's index,
  and the call changes no attribute other than \<^verbatim>\<open>windows\<close>: the registry, the path
  list, the window size and the skeletons stay as they were. This holds whether the
  call returns or raises.
\<close>

theorem prepare_replaces_store:
  assumes "self' = fst (state_of (prepare_data_for_subset world self subset_indices))"
  shows "prepare_data_for_subset world self subset_indices
           = prepare_data_for_subset world (self\<lparr>windows := []\<rparr>) subset_indices
         \<and> (\<forall>w \<in> set (windows self'). \<exists>si trial start.
               window_origin world self (subset_list self subset_indices) w si trial start
               \<and> snd (snd w) = si)
         \<and> contact_bodies self' = contact_bodies self
         \<and> subject_paths self' = subject_paths self
         \<and> window_size self' = window_size self
         \<and> skeletons self' = skeletons self
         \<and> skeletons_contact_bodies self' = skeletons_contact_bodies self
         \<and> self'\<lparr>windows := []\<rparr> = self\<lparr>windows := []\<rparr>"
proof -
  from prepare_windows[of world self subset_indices] assms obtain W where
    W: "self' = self\<lparr>windows := W\<rparr>"
    and all: "\<forall>w\<in>set W. \<exists>si trial start.
             window_origin world self (subset_list self subset_indices) w si trial start"
    by auto
  have origin: "\<forall>w \<in> set (windows self'). \<exists>si trial start.
               window_origin world self (subset_list self subset_indices) w si trial start
               \<and> snd (snd w) = si"
  proof
    fix w assume "w \<in> set (windows self')"
    with W all obtain si trial start where
      o: "window_origin world self (subset_list self subset_indices) w si trial start"
      by auto
    then have "make_window world self (subject_at world self si) si (arrays_of trial) start = Inr w"
      by (simp add: window_origin_def)
    then have "snd (snd w) = si" by (rule make_window_subject_index)
    with o show "\<exists>si trial start.
               window_origin world self (subset_list self subset_indices) w si trial start
               \<and> snd (snd w) = si" by blast
  qed
  show ?thesis
    using origin by (simp add: prepare_ignores_windows W)
qed

text \<open>
  C7. Running the preparation again on the object the first run left behind, with the
  same subset and the same recordings, gives the same outcome: the same windows in the
  same order with the same content, the same counter, and the same exception if any.
\<close>

theorem prepare_deterministic:
  "prepare_data_for_subset world
     (fst (state_of (prepare_data_for_subset world self subset_indices))) subset_indices
   = prepare_data_for_subset world self subset_indices"
proof -
  from prepare_windows[of world self subset_indices] obtain W where
    "fst (state_of (prepare_data_for_subset world self subset_indices)) = self\<lparr>windows := W\<rparr>"
    by auto
  then show ?thesis by (simp add: prepare_ignores_windows)
qed

section \<open>Counting the windows\<close>

lemma py_range_nonneg: "0 \<le> a \<Longrightarrow> i \<in> set (py_range a b) \<Longrightarrow> 0 \<le> i"
  by (auto simp: py_range_def)

lemma set_py_range: "set (py_range a b) = {i. a \<le> i \<and> i < b}"
proof -
  have "\<And>i. a \<le> i \<Longrightarrow> i < b \<Longrightarrow> i \<in> (\<lambda>k. a + int k) ` {0..<nat (b - a)}"
  proof -
    fix i assume "a \<le> i" "i < b"
    then have "i = a + int (nat (i - a))" "nat (i - a) \<in> {0..<nat (b - a)}" by auto
    then show "i \<in> (\<lambda>k. a + int k) ` {0..<nat (b - a)}" by (rule image_eqI)
  qed
  then show ?thesis by (auto simp: py_range_def)
qed

lemma trial_starts_nonneg: "s \<in> set (trial_starts ws trial) \<Longrightarrow> 0 \<le> s"
  by (simp add: trial_starts_def set_py_range)

lemma window_has_missing_eq:
  assumes "\<forall>i\<in>set is. 0 \<le> i" and "window_has_missing pm is = Inr b"
  shows "b = list_ex (\<lambda>i. i < int (length pm) \<and> pm ! nat i) is"
    and "\<not> b \<Longrightarrow> \<forall>i\<in>set is. i < int (length pm) \<and> \<not> pm ! nat i"
  using assms
proof (induction "is")
  case Nil
  { case 1 then show ?case by simp }
  { case 2 then show ?case by simp }
next
  case (Cons i rest)
  { case 1
    from 1 have nonneg: "0 \<le> i" by simp
    show ?case
    proof (cases "list_get pm i")
      case (Inl e)
      with 1 show ?thesis by simp
    next
      case (Inr flag)
      from list_get_in_range[OF nonneg Inr] have lt: "i < int (length pm)" and fl: "flag = pm ! nat i"
        by simp_all
      show ?thesis
      proof (cases flag)
        case True
        with 1 Inr lt fl show ?thesis by simp
      next
        case False
        with 1 Inr have "window_has_missing pm rest = Inr b" by simp
        with Cons.IH(1) 1 have "b = list_ex (\<lambda>i. i < int (length pm) \<and> pm ! nat i) rest" by simp
        with False fl show ?thesis by simp
      qed
    qed }
  { case 2
    from 2 have nonneg: "0 \<le> i" by simp
    show ?case
    proof (cases "list_get pm i")
      case (Inl e)
      with 2 show ?thesis by simp
    next
      case (Inr flag)
      from list_get_in_range[OF nonneg Inr] have lt: "i < int (length pm)" and fl: "flag = pm ! nat i"
        by simp_all
      show ?thesis
      proof (cases flag)
        case True
        with 2 Inr show ?thesis by simp
      next
        case False
        with 2 Inr have "window_has_missing pm rest = Inr b" by simp
        with Cons.IH(2) 2 have "\<forall>i\<in>set rest. i < int (length pm) \<and> \<not> pm ! nat i" by simp
        with False fl lt show ?thesis by simp
      qed
    qed }
qed

lemma window_loop_count:
  assumes "window_loop world subject si (trial_flags trial) A starts (self, k) = Returned (self', k')"
    and "\<forall>s\<in>set starts. 0 \<le> s"
  shows "int (length (windows self')) + k' = int (length (windows self)) + k + int (length starts)
       \<and> k' = k + int (length (filter (candidate_flagged (window_size self) trial) starts))"
  using assms
proof (induction starts arbitrary: self k)
  case Nil
  then show ?case by simp
next
  case (Cons start rest)
  let ?range = "py_range start (start + window_size self)"
  from Cons.prems have nonneg: "\<forall>i\<in>set ?range. 0 \<le> i"
    by (auto intro: py_range_nonneg)
  show ?case
  proof (cases "window_has_missing (trial_flags trial) ?range")
    case (Inl e)
    with Cons.prems show ?thesis by simp
  next
    case (Inr skip)
    from window_has_missing_eq(1)[OF nonneg Inr]
    have skip: "skip = candidate_flagged (window_size self) trial start"
      by (simp add: candidate_flagged_def)
    show ?thesis
    proof (cases skip)
      case True
      with Cons.prems Inr have
        "window_loop world subject si (trial_flags trial) A rest (self, k + 1) = Returned (self', k')"
        by simp
      from Cons.IH[OF this] Cons.prems(2) True skip show ?thesis by simp
    next
      case False
      show ?thesis
      proof (cases "make_window world self subject si A start")
        case (Inl e)
        with Cons.prems Inr False show ?thesis by simp
      next
        case mk: (Inr w)
        with Cons.prems Inr False have
          "window_loop world subject si (trial_flags trial) A rest
             (self\<lparr>windows := windows self @ [w]\<rparr>, k) = Returned (self', k')"
          by simp
        from Cons.IH[OF this] Cons.prems(2) False skip show ?thesis by simp
      qed
    qed
  qed
qed


lemma grows_Returned:
  assumes "grows P (self, k) r" and "r = Returned (self', k')"
  shows "window_size self' = window_size self" and "subject_paths self' = subject_paths self"
    and "subject_at world self' si = subject_at world self si"
  using assms unfolding grows_def by (auto simp: subject_at_def)

lemma flagged_candidates_append [simp]:
  "flagged_candidates ws (xs @ ys) = flagged_candidates ws xs @ flagged_candidates ws ys"
  by (simp add: flagged_candidates_def)

lemma flagged_candidates_Nil [simp]: "flagged_candidates ws [] = []"
  by (simp add: flagged_candidates_def)

lemma flagged_candidates_trial:
  "length (flagged_candidates ws (map (\<lambda>s. (trial, s)) starts))
     = length (filter (candidate_flagged ws trial) starts)"
  by (induction starts) (simp_all add: flagged_candidates_def)

lemma process_trial_count:
  assumes "process_trial world subject si trial (self, k) = Returned (self', k')"
  shows "int (length (windows self')) + k'
           = int (length (windows self)) + k + int (length (trial_candidates (window_size self) [trial]))
       \<and> k' = k + int (length (flagged_candidates (window_size self)
                                 (trial_candidates (window_size self) [trial])))"
proof (cases "list_get (getPasses trial) 0")
  case (Inl e)
  with assms show ?thesis by (simp add: process_trial_def)
next
  case first: (Inr input_pass)
  show ?thesis
  proof (cases "list_get (getPasses trial) (- 1)")
    case (Inl e)
    with assms first show ?thesis by (simp add: process_trial_def)
  next
    case lst: (Inr output_pass)
    from assms have "window_loop world subject si (trial_flags trial) (arrays_of trial)
           (trial_starts (window_size self) trial) (self, k) = Returned (self', k')"
      by (simp only: process_trial_unfold[OF first lst])
    from window_loop_count[OF this] show ?thesis
      by (simp add: trial_candidates_def flagged_candidates_trial trial_starts_nonneg)
  qed
qed

lemma trial_candidates_Cons:
  "trial_candidates ws (trial # rest) = trial_candidates ws [trial] @ trial_candidates ws rest"
  by (simp add: trial_candidates_def)

lemma trial_loop_count:
  assumes "trial_loop world subject si trials (self, k) = Returned (self', k')"
  shows "int (length (windows self')) + k'
           = int (length (windows self)) + k + int (length (trial_candidates (window_size self) trials))
       \<and> k' = k + int (length (flagged_candidates (window_size self)
                                 (trial_candidates (window_size self) trials)))"
  using assms
proof (induction trials arbitrary: self k)
  case Nil
  then show ?case by (simp add: trial_candidates_def)
next
  case (Cons trial rest)
  show ?case
  proof (cases "process_trial world subject si trial (self, k)")
    case (Raised e st)
    with Cons.prems show ?thesis by simp
  next
    case (Returned st)
    obtain self1 k1 where st: "st = (self1, k1)" by (cases st)
    have "grows (\<lambda>w. True) (self, k) (process_trial world subject si trial (self, k))"
      by (rule process_trial_grows) simp
    from grows_Returned(1)[OF this] Returned st have ws: "window_size self1 = window_size self"
      by simp
    from Returned st have 1: "process_trial world subject si trial (self, k) = Returned (self1, k1)"
      by simp
    from Cons.prems Returned st have 2: "trial_loop world subject si rest (self1, k1) = Returned (self', k')"
      by simp
    from process_trial_count[OF 1] Cons.IH[OF 2] show ?thesis
      by (simp add: ws trial_candidates_Cons[of _ trial rest])
  qed
qed

lemma process_subject_count:
  assumes "process_subject world si (self, k) = Returned (self', k')"
  shows "int (length (windows self')) + k'
           = int (length (windows self)) + k + int (length (candidates world self [si]))
       \<and> k' = k + int (length (flagged_candidates (window_size self) (candidates world self [si])))"
proof (cases "si < 0 \<or> 2 ^ 32 \<le> si")
  case True
  with assms show ?thesis by (simp add: process_subject_def)
next
  case False
  then have nonneg: "0 \<le> si" by simp
  show ?thesis
  proof (cases "list_get (subject_paths self) si")
    case (Inl e)
    with assms False show ?thesis by (simp add: process_subject_def)
  next
    case (Inr path)
    from list_get_in_range[OF nonneg Inr]
    have path: "openSubject world path = subject_at world self si"
      by (simp add: subject_at_def)
    from assms False Inr path have
      "trial_loop world (subject_at world self si) si (getTrials (subject_at world self si)) (self, k)
         = Returned (self', k')"
      by (simp add: process_subject_def Let_def)
    from trial_loop_count[OF this] show ?thesis by (simp add: candidates_def)
  qed
qed

lemma candidates_Cons:
  "candidates world self (si # rest) = candidates world self [si] @ candidates world self rest"
  by (simp add: candidates_def)

lemma candidates_windows [simp]:
  "candidates world (self\<lparr>windows := W\<rparr>) indices = candidates world self indices"
  by (simp add: candidates_def)

lemma subject_loop_count:
  assumes "subject_loop world indices (self, k) = Returned (self', k')"
  shows "int (length (windows self')) + k'
           = int (length (windows self)) + k + int (length (candidates world self indices))
       \<and> k' = k + int (length (flagged_candidates (window_size self) (candidates world self indices)))"
  using assms
proof (induction indices arbitrary: self k)
  case Nil
  then show ?case by (simp add: candidates_def)
next
  case (Cons si rest)
  show ?case
  proof (cases "process_subject world si (self, k)")
    case (Raised e st)
    with Cons.prems show ?thesis by simp
  next
    case (Returned st)
    obtain self1 k1 where st: "st = (self1, k1)" by (cases st)
    have "grows (\<lambda>w. True) (self, k) (process_subject world si (self, k))"
      by (rule process_subject_grows) simp
    then obtain W where W: "self1 = self\<lparr>windows := windows self @ W\<rparr>"
      using Returned st unfolding grows_def by auto
    from Returned st have 1: "process_subject world si (self, k) = Returned (self1, k1)"
      by simp
    from Cons.prems Returned st have 2: "subject_loop world rest (self1, k1) = Returned (self', k')"
      by simp
    from process_subject_count[OF 1] Cons.IH[OF 2] show ?thesis
      by (simp add: W candidates_Cons[of _ _ si rest])
  qed
qed

lemma outcome_Returned: "raised r = None \<Longrightarrow> r = Returned (fst (state_of r), snd (state_of r))"
  by (cases r) simp_all

lemmas demo_defs =
  demo_world_def demo_dataset_def demo_subject_a_def demo_subject_b_def
  demo_trial_a_def demo_trial_b_def demo_pass_def demo_array_def

lemmas model_defs =
  prepare_data_for_subset_def subset_list_def process_subject_def process_trial_def
  make_window_def fill_body_def contact_indices_of_def pull_arrays_def list_get_def
  py_range_def slice_rows_def slice_cols_def slice2_def py_slice_def slice_len_def
  clamp_index_def np_zeros_def assign_cols_def broadcast_to_def torch_tensor_def
  div_scalar_def transpose_nd_def nrows_def

lemma demo_prepare:
  "raised (prepare_data_for_subset demo_world demo_dataset None) = None
   \<and> length (windows (fst (state_of (prepare_data_for_subset demo_world demo_dataset None)))) = 2
   \<and> snd (state_of (prepare_data_for_subset demo_world demo_dataset None)) = 1"
  by (simp add: demo_defs model_defs Let_def upt_rec[of _ "numeral n" for n] upt_rec[of 0])

text \<open>
  C5. When the preparation returns, the number of windows is the number of candidate
  starts of the subset (for each subject index in turn and each of its trials, the
  starts \<open>0 .. trial_length - window_size\<close>, none when that is negative) minus the
  counter \<^verbatim>\<open>num_skipped\<close>, and the counter is the number of candidates with a flagged
  frame in their range: each candidate was appended or counted.
\<close>

theorem prepare_count:
  assumes "prepare_data_for_subset world self subset_indices = Returned (self', num_skipped)"
  shows "int (len self') =
           int (length (candidates world self (subset_list self subset_indices))) - num_skipped
       \<and> num_skipped =
           int (length (flagged_candidates (window_size self)
                          (candidates world self (subset_list self subset_indices))))
       \<and> length (candidates world self (subset_list self subset_indices)) =
           sum_list (map (\<lambda>subject_index.
              sum_list (map (\<lambda>trial. nat (int (getTrialLength trial) - window_size self + 1))
                            (getTrials (subject_at world self subject_index))))
              (subset_list self subset_indices))"
proof -
  have nat_max: "\<And>x::int. nat (max x 0) = nat x" by simp
  have "length (candidates world self (subset_list self subset_indices)) =
           sum_list (map (\<lambda>subject_index.
              sum_list (map (\<lambda>trial. nat (int (getTrialLength trial) - window_size self + 1))
                            (getTrials (subject_at world self subject_index))))
              (subset_list self subset_indices))"
    by (simp add: candidates_def trial_candidates_def length_concat comp_def
          trial_starts_def py_range_def nat_max)
  with subject_loop_count[OF assms[unfolded prepare_data_for_subset_def]]
  show ?thesis by (simp add: len_def)
qed

theorem prepare_count_witness:
  "len (fst (state_of (prepare_data_for_subset demo_world demo_dataset None))) = 2
   \<and> length (candidates demo_world demo_dataset (subset_list demo_dataset None)) = 3
   \<and> length (flagged_candidates (window_size demo_dataset)
               (candidates demo_world demo_dataset (subset_list demo_dataset None))) = 1"
  using prepare_count[OF outcome_Returned, of demo_world demo_dataset None] demo_prepare
  by (simp add: len_def)

theorem prepare_replaces_store_witness:
  "length (windows (fst (state_of (prepare_data_for_subset demo_world demo_dataset None)))) = 2
   \<and> prepare_data_for_subset demo_world demo_dataset None
       = prepare_data_for_subset demo_world (demo_dataset\<lparr>windows := []\<rparr>) None
   \<and> contact_bodies (fst (state_of (prepare_data_for_subset demo_world demo_dataset None)))
       = contact_bodies demo_dataset
   \<and> subject_paths (fst (state_of (prepare_data_for_subset demo_world demo_dataset None)))
       = subject_paths demo_dataset"
proof -
  have n: "length (windows (fst (state_of
             (prepare_data_for_subset demo_world demo_dataset None)))) = 2"
    using demo_prepare by (rule conjunct1[OF conjunct2])
  show ?thesis
    using n prepare_replaces_store[OF refl, of demo_world demo_dataset None]
    by (elim conjE) (intro conjI, assumption+)
qed

section \<open>Arrays: slices, broadcasting and column assignment\<close>

lemma clamp_index_nonneg: "0 \<le> i \<Longrightarrow> i \<le> int n \<Longrightarrow> clamp_index n i = nat i"
  by (simp add: clamp_index_def)

lemma clamp_index_le: "clamp_index n i \<le> n"
proof (cases "i < 0")
  case True
  then have "nat (int n + i) \<le> n" by linarith
  with True show ?thesis by (simp add: clamp_index_def)
next
  case False
  then show ?thesis by (simp add: clamp_index_def)
qed

lemma py_slice_inside:
  assumes "0 \<le> s" and "s \<le> e" and "e \<le> int (length xs)"
  shows "py_slice xs s e = take (nat (e - s)) (drop (nat s) xs)"
  using assms by (simp add: py_slice_def slice_len_def clamp_index_nonneg nat_diff_distrib)

lemma length_py_slice_inside:
  assumes "0 \<le> s" and "s \<le> e" and "e \<le> int (length xs)"
  shows "length (py_slice xs s e) = nat (e - s)"
  using assms by (simp add: py_slice_inside)

lemma slice_len_inside:
  assumes "0 \<le> s" and "s \<le> e" and "e \<le> int n"
  shows "slice_len n s e = nat (e - s)"
  using assms by (simp add: slice_len_def clamp_index_nonneg nat_diff_distrib)

lemma nrows_transpose_nd [simp]: "nrows (transpose_nd a) = ncols a"
  by (simp add: nrows_def transpose_nd_def)

lemma ncols_transpose_nd [simp]: "ncols (transpose_nd a) = nrows a"
  by (simp add: transpose_nd_def)

lemma regular_transpose_nd [simp]: "regular (transpose_nd a)"
  by (simp add: regular_def transpose_nd_def list_all_iff nrows_def)

lemma nrows_slice_rows:
  assumes "0 \<le> s" and "s \<le> e" and "e \<le> int (nrows a)"
  shows "nrows (slice_rows a s e) = nat (e - s)"
  using assms by (simp add: nrows_def slice_rows_def length_py_slice_inside)

lemma ncols_slice_rows [simp]: "ncols (slice_rows a s e) = ncols a"
  by (simp add: slice_rows_def)

lemma nrows_slice_cols [simp]: "nrows (slice_cols a c0 c1) = nrows a"
  by (simp add: nrows_def slice_cols_def)

lemma nrows_slice2:
  assumes "0 \<le> s" and "s \<le> e" and "e \<le> int (nrows a)"
  shows "nrows (slice2 a s e c0 c1) = nat (e - s)"
  using assms by (simp add: slice2_def nrows_slice_rows)

lemma nrows_div_scalar [simp]: "nrows (div_scalar a m) = nrows a"
  by (simp add: nrows_def div_scalar_def)

lemma ncols_div_scalar [simp]: "ncols (div_scalar a m) = ncols a"
  by (simp add: div_scalar_def)

lemma nrows_torch_tensor [simp]: "nrows (torch_tensor f a) = nrows a"
  by (simp add: nrows_def torch_tensor_def)

lemma ncols_torch_tensor [simp]: "ncols (torch_tensor f a) = ncols a"
  by (simp add: torch_tensor_def)

lemma regular_slice_rows: "regular a \<Longrightarrow> regular (slice_rows a s e)"
  by (auto simp: regular_def slice_rows_def py_slice_def list_all_iff dest: in_set_takeD in_set_dropD)

lemma regular_slice_cols:
  assumes "regular a"
  shows "regular (slice_cols a c0 c1)"
proof -
  have "min (n - clamp_index n c0) (clamp_index n c1 - clamp_index n c0)
          = clamp_index n c1 - clamp_index n c0" for n
    using clamp_index_le[of n c1] by simp
  with assms show ?thesis
    by (auto simp: regular_def slice_cols_def list_all_iff py_slice_def slice_len_def)
qed

lemma regular_div_scalar [simp]: "regular (div_scalar a m) = regular a"
  by (simp add: regular_def div_scalar_def list_all_iff)

lemma block_torch_tensor: "block (torch_tensor f a) i = torch_tensor f (block a i)"
  by (simp add: block_def slice_cols_def torch_tensor_def py_slice_def take_map drop_map)

lemma nth_take_drop: "k < m \<Longrightarrow> n + k < length xs \<Longrightarrow> take m (drop n xs) ! k = xs ! (n + k)"
  by simp

lemma row_block:
  assumes len: "length row = 3 * n" and v: "length v = 3" and j: "j < n" and i: "i < n"
  shows "py_slice (take (3 * j) row @ v @ drop (3 * j + 3) row) (3 * int i) (3 * int i + 3)
           = (if i = j then v else py_slice row (3 * int i) (3 * int i + 3))"
proof -
  let ?row' = "take (3 * j) row @ v @ drop (3 * j + 3) row"
  have len': "length ?row' = 3 * n" using len v j by simp
  have s1: "py_slice ?row' (3 * int i) (3 * int i + 3) = take 3 (drop (3 * i) ?row')"
    using len' i by (subst py_slice_inside) (simp_all add: nat_mult_distrib)
  have s2: "py_slice row (3 * int i) (3 * int i + 3) = take 3 (drop (3 * i) row)"
    using len i by (subst py_slice_inside) (simp_all add: nat_mult_distrib)
  show ?thesis
  proof (cases "i = j")
    case True
    with len v j show ?thesis unfolding s1 by simp
  next
    case False
    have "take 3 (drop (3 * i) ?row') = take 3 (drop (3 * i) row)"
    proof (rule nth_equalityI)
      show "length (take 3 (drop (3 * i) ?row')) = length (take 3 (drop (3 * i) row))"
        by (simp only: length_take length_drop len len')
    next
      fix k assume "k < length (take 3 (drop (3 * i) ?row'))"
      then have k: "k < 3" by (simp only: length_take length_drop len')
      have in_range: "3 * i + k < 3 * n" using i k by simp
      have "?row' ! (3 * i + k) = row ! (3 * i + k)"
      proof (cases "i < j")
        case True
        then have "3 * i + k < 3 * j" using k by simp
        then show ?thesis using len j by (simp add: nth_append)
      next
        case False
        with \<open>i \<noteq> j\<close> have "j < i" by simp
        then have ge: "3 * j + 3 \<le> 3 * i + k" by simp
        have lt: "length (take (3 * j) row) = 3 * j" using len j by simp
        have a: "\<not> 3 * i + k < length (take (3 * j) row)" using ge lt by simp
        have b: "\<not> 3 * i + k - length (take (3 * j) row) < length v" using ge lt v by simp
        have c: "3 * j + 3 + (3 * i + k - length (take (3 * j) row) - length v) = 3 * i + k"
          using ge lt v by simp
        have "?row' ! (3 * i + k)
                = drop (3 * j + 3) row ! (3 * i + k - length (take (3 * j) row) - length v)"
          by (simp only: nth_append a b if_False)
        also have "\<dots> = row ! (3 * i + k)"
        proof -
          have "3 * j + 3 \<le> length row" using len j by simp
          then show ?thesis by (simp only: nth_drop c)
        qed
        finally show ?thesis .
      qed
      moreover have "take 3 (drop (3 * i) ?row') ! k = ?row' ! (3 * i + k)"
        using k in_range by (intro nth_take_drop) (simp_all only: len')
      moreover have "take 3 (drop (3 * i) row) ! k = row ! (3 * i + k)"
        using k in_range by (intro nth_take_drop) (simp_all only: len)
      ultimately show "take 3 (drop (3 * i) ?row') ! k = take 3 (drop (3 * i) row) ! k"
        by simp
    qed
    with False show ?thesis unfolding s1 s2 by simp
  qed
qed

lemma broadcast_to_shape:
  assumes "broadcast_to r c a = Inr vals"
  shows "length vals = r" and "\<forall>v\<in>set vals. length v = c"
  using assms by (auto simp: broadcast_to_def split: if_splits)

lemma broadcast_to_exact:
  assumes r: "nrows a = r" and c: "ncols a = c" and reg: "regular a"
  shows "broadcast_to r c a = Inr (rows a)"
proof -
  have rows_len: "\<And>i. i < r \<Longrightarrow> length (rows a ! i) = c"
    using r c reg by (simp add: regular_def nrows_def list_all_length)
  have "map (\<lambda>i. map (\<lambda>j. rows a ! (if nrows a = 1 then 0 else i)
                                 ! (if ncols a = 1 then 0 else j)) [0..<c]) [0..<r] = rows a"
  proof (rule nth_equalityI)
    show "length (map (\<lambda>i. map (\<lambda>j. rows a ! (if nrows a = 1 then 0 else i)
                                 ! (if ncols a = 1 then 0 else j)) [0..<c]) [0..<r]) = length (rows a)"
      using r by (simp add: nrows_def)
  next
    fix i assume "i < length (map (\<lambda>i. map (\<lambda>j. rows a ! (if nrows a = 1 then 0 else i)
                                 ! (if ncols a = 1 then 0 else j)) [0..<c]) [0..<r])"
    then have i: "i < r" by simp
    then have i0: "nrows a = 1 \<Longrightarrow> i = 0" using r by simp
    have "map (\<lambda>j. rows a ! i ! (if ncols a = 1 then 0 else j)) [0..<c] = rows a ! i"
    proof (rule nth_equalityI)
      show "length (map (\<lambda>j. rows a ! i ! (if ncols a = 1 then 0 else j)) [0..<c]) = length (rows a ! i)"
        using rows_len[OF i] by simp
    next
      fix j assume "j < length (map (\<lambda>j. rows a ! i ! (if ncols a = 1 then 0 else j)) [0..<c])"
      then have j: "j < c" by simp
      then have "ncols a = 1 \<Longrightarrow> j = 0" using c by simp
      with j show "map (\<lambda>j. rows a ! i ! (if ncols a = 1 then 0 else j)) [0..<c] ! j = rows a ! i ! j"
        by auto
    qed
    with i i0 show "map (\<lambda>i. map (\<lambda>j. rows a ! (if nrows a = 1 then 0 else i)
                                 ! (if ncols a = 1 then 0 else j)) [0..<c]) [0..<r] ! i = rows a ! i"
      by auto
  qed
  with r c show ?thesis by (simp add: broadcast_to_def)
qed

lemma assign_cols_block:
  assumes nc: "ncols t = 3 * n" and reg: "regular t" and j: "j < n"
    and asg: "assign_cols t (3 * int j) (3 * int j + 3) src = Inr t'"
  shows "ncols t' = 3 * n" and "nrows t' = nrows t" and "regular t'"
    and "\<And>i. i < n \<Longrightarrow> i \<noteq> j \<Longrightarrow> block t' i = block t i"
    and "\<exists>vals. broadcast_to (nrows t) 3 src = Inr vals \<and> block t' j = \<lparr>ncols = 3, rows = vals\<rparr>"
proof -
  have lo: "clamp_index (ncols t) (3 * int j) = 3 * j"
    using nc j by (simp add: clamp_index_nonneg nat_mult_distrib)
  have w: "slice_len (ncols t) (3 * int j) (3 * int j + 3) = 3"
    using nc j by (simp add: slice_len_inside)
  from asg obtain vals where bc: "broadcast_to (nrows t) 3 src = Inr vals"
    and t': "t' = \<lparr>ncols = ncols t,
                   rows = map (\<lambda>(row, v). take (3 * j) row @ v @ drop (3 * j + 3) row)
                              (zip (rows t) vals)\<rparr>"
    by (auto simp: assign_cols_def Let_def lo w split: sum.splits)
  from broadcast_to_shape[OF bc] have lv: "length vals = nrows t" and v3: "\<forall>v\<in>set vals. length v = 3"
    by simp_all
  have rl: "\<forall>row\<in>set (rows t). length row = 3 * n"
    using reg nc by (simp add: regular_def list_all_iff)
  show "ncols t' = 3 * n" using t' nc by simp
  show "nrows t' = nrows t" using t' lv by (simp add: nrows_def)
  show "regular t'"
    unfolding regular_def list_all_iff
  proof
    fix r' assume "r' \<in> set (rows t')"
    then obtain row v where rv: "(row, v) \<in> set (zip (rows t) vals)"
      and r': "r' = take (3 * j) row @ v @ drop (3 * j + 3) row"
      using t' by auto
    from rv have "row \<in> set (rows t)" "v \<in> set vals" by (auto dest: set_zip_leftD set_zip_rightD)
    with rl v3 have "length row = 3 * n" "length v = 3" by simp_all
    with r' j t' nc show "length r' = ncols t'" by simp
  qed
  have ncb: "\<And>i a. ncols a = 3 * n \<Longrightarrow> i < n \<Longrightarrow> ncols (block a i) = 3"
    by (simp add: block_def slice_cols_def slice_len_inside)
  have rows_block: "\<And>i. i < n \<Longrightarrow> rows (block t' i) =
      map (\<lambda>(row, v). if i = j then v else py_slice row (3 * int i) (3 * int i + 3)) (zip (rows t) vals)"
  proof -
    fix i assume i: "i < n"
    have "\<And>row v. (row, v) \<in> set (zip (rows t) vals) \<Longrightarrow>
            py_slice (take (3 * j) row @ v @ drop (3 * j + 3) row) (3 * int i) (3 * int i + 3)
              = (if i = j then v else py_slice row (3 * int i) (3 * int i + 3))"
    proof -
      fix row v assume rv: "(row, v) \<in> set (zip (rows t) vals)"
      then have "row \<in> set (rows t)" "v \<in> set vals" by (auto dest: set_zip_leftD set_zip_rightD)
      with rl v3 have "length row = 3 * n" "length v = 3" by simp_all
      then show "py_slice (take (3 * j) row @ v @ drop (3 * j + 3) row) (3 * int i) (3 * int i + 3)
              = (if i = j then v else py_slice row (3 * int i) (3 * int i + 3))"
        using j i by (rule row_block)
    qed
    then show "rows (block t' i) =
      map (\<lambda>(row, v). if i = j then v else py_slice row (3 * int i) (3 * int i + 3)) (zip (rows t) vals)"
      by (auto simp: block_def slice_cols_def t')
  qed
  show "\<And>i. i < n \<Longrightarrow> i \<noteq> j \<Longrightarrow> block t' i = block t i"
  proof -
    fix i assume i: "i < n" and ne: "i \<noteq> j"
    have "rows (block t' i) = map (\<lambda>(row, v). py_slice row (3 * int i) (3 * int i + 3)) (zip (rows t) vals)"
      using rows_block[OF i] ne by simp
    also have "\<dots> = map (\<lambda>row. py_slice row (3 * int i) (3 * int i + 3)) (map fst (zip (rows t) vals))"
      by (simp add: case_prod_beta comp_def)
    also have "map fst (zip (rows t) vals) = rows t"
      using lv by (simp add: nrows_def)
    finally have "rows (block t' i) = rows (block t i)"
      by (simp add: block_def slice_cols_def)
    moreover have "ncols (block t' i) = ncols (block t i)"
      using ncb[OF \<open>ncols t' = 3 * n\<close> i] ncb[OF nc i] by simp
    ultimately show "block t' i = block t i" by simp
  qed
  show "\<exists>vals. broadcast_to (nrows t) 3 src = Inr vals \<and> block t' j = \<lparr>ncols = 3, rows = vals\<rparr>"
  proof -
    have "rows (block t' j) = map (\<lambda>(row, v). v) (zip (rows t) vals)"
      using rows_block[OF j] by simp
    also have "\<dots> = map snd (zip (rows t) vals)"
      by (simp add: case_prod_beta)
    also have "\<dots> = vals" using lv by (simp add: nrows_def)
    finally have "rows (block t' j) = vals" .
    moreover have "ncols (block t' j) = 3" using ncb[OF \<open>ncols t' = 3 * n\<close> j] .
    ultimately have "block t' j = \<lparr>ncols = 3, rows = vals\<rparr>" by simp
    with bc show ?thesis by blast
  qed
qed

lemma assign_cols_shape:
  assumes "per_body_shape n w t" and "j < n"
    and "assign_cols t (3 * int j) (3 * int j + 3) src = Inr t'"
  shows "per_body_shape n w t'"
    and "\<And>i. i < n \<Longrightarrow> i \<noteq> j \<Longrightarrow> block t' i = block t i"
    and "written w src (block t' j)"
proof -
  from assms(1) have nc: "ncols t = 3 * n" and nr: "nrows t = w" and reg: "regular t"
    by (simp_all add: per_body_shape_def)
  from assign_cols_block(1,2,3)[OF nc reg assms(2,3)] nr
  show "per_body_shape n w t'" by (simp add: per_body_shape_def)
  show "\<And>i. i < n \<Longrightarrow> i \<noteq> j \<Longrightarrow> block t' i = block t i"
    by (rule assign_cols_block(4)[OF nc reg assms(2,3)])
  from assign_cols_block(5)[OF nc reg assms(2,3)] nr
  show "written w src (block t' j)" by (simp add: written_def)
qed

lemma fill_body_absent:
  "contact_indices ! i < 0 \<Longrightarrow> fill_body A mass s e contact_indices i st = Inr st"
  by (cases st) (simp add: fill_body_def)

lemma fill_body_present:
  assumes c: "0 \<le> contact_indices ! j"
    and fb: "fill_body A mass s e contact_indices j (cops, torques, forces) = Inr (cops', torques', forces')"
  shows "assign_cols cops (3 * int j) (3 * int j + 3)
           (slice2 (ground_contact_cop_torque_force_in_root_frame A) s e
              (9 * (contact_indices ! j)) (9 * (contact_indices ! j) + 3)) = Inr cops'"
    and "assign_cols torques (3 * int j) (3 * int j + 3)
           (div_scalar (slice2 (ground_contact_cop_torque_force_in_root_frame A) s e
              (9 * (contact_indices ! j) + 3) (9 * (contact_indices ! j) + 6)) mass) = Inr torques'"
    and "assign_cols forces (3 * int j) (3 * int j + 3)
           (div_scalar (slice2 (ground_contact_cop_torque_force_in_root_frame A) s e
              (9 * (contact_indices ! j) + 6) (9 * (contact_indices ! j) + 9)) mass) = Inr forces'"
  using assms by (auto simp: fill_body_def Let_def split: sum.splits)

lemma fill_body_step:
  assumes sh: "per_body_shape n w cops" "per_body_shape n w torques" "per_body_shape n w forces"
    and j: "j < n"
    and fb: "fill_body A mass s e contact_indices j (cops, torques, forces) = Inr (cops', torques', forces')"
  shows "per_body_shape n w cops'" "per_body_shape n w torques'" "per_body_shape n w forces'"
    and "\<And>i. i < n \<Longrightarrow> i \<noteq> j \<Longrightarrow>
           block cops' i = block cops i \<and> block torques' i = block torques i
           \<and> block forces' i = block forces i"
proof -
  show "per_body_shape n w cops'" "per_body_shape n w torques'" "per_body_shape n w forces'"
  proof -
    show "per_body_shape n w cops'"
    proof (cases "0 \<le> contact_indices ! j")
      case True
      from assign_cols_shape(1)[OF sh(1) j fill_body_present(1)[OF True fb]] show ?thesis .
    next
      case False
      with fb sh show ?thesis by (simp add: fill_body_absent)
    qed
    show "per_body_shape n w torques'"
    proof (cases "0 \<le> contact_indices ! j")
      case True
      from assign_cols_shape(1)[OF sh(2) j fill_body_present(2)[OF True fb]] show ?thesis .
    next
      case False
      with fb sh show ?thesis by (simp add: fill_body_absent)
    qed
    show "per_body_shape n w forces'"
    proof (cases "0 \<le> contact_indices ! j")
      case True
      from assign_cols_shape(1)[OF sh(3) j fill_body_present(3)[OF True fb]] show ?thesis .
    next
      case False
      with fb sh show ?thesis by (simp add: fill_body_absent)
    qed
  qed
  show "\<And>i. i < n \<Longrightarrow> i \<noteq> j \<Longrightarrow>
           block cops' i = block cops i \<and> block torques' i = block torques i
           \<and> block forces' i = block forces i"
  proof -
    fix i assume i: "i < n" "i \<noteq> j"
    show "block cops' i = block cops i \<and> block torques' i = block torques i
           \<and> block forces' i = block forces i"
    proof (cases "0 \<le> contact_indices ! j")
      case True
      from assign_cols_shape(2)[OF sh(1) j fill_body_present(1)[OF True fb] i]
           assign_cols_shape(2)[OF sh(2) j fill_body_present(2)[OF True fb] i]
           assign_cols_shape(2)[OF sh(3) j fill_body_present(3)[OF True fb] i]
      show ?thesis by simp
    next
      case False
      with fb show ?thesis by (simp add: fill_body_absent)
    qed
  qed
qed

lemma fill_body_written:
  assumes sh: "per_body_shape n w cops" "per_body_shape n w torques" "per_body_shape n w forces"
    and j: "j < n" and c: "0 \<le> contact_indices ! j"
    and fb: "fill_body A mass s e contact_indices j (cops, torques, forces) = Inr (cops', torques', forces')"
  shows "written w (slice2 (ground_contact_cop_torque_force_in_root_frame A) s e
              (9 * (contact_indices ! j)) (9 * (contact_indices ! j) + 3)) (block cops' j)"
    and "written w (div_scalar (slice2 (ground_contact_cop_torque_force_in_root_frame A) s e
              (9 * (contact_indices ! j) + 3) (9 * (contact_indices ! j) + 6)) mass) (block torques' j)"
    and "written w (div_scalar (slice2 (ground_contact_cop_torque_force_in_root_frame A) s e
              (9 * (contact_indices ! j) + 6) (9 * (contact_indices ! j) + 9)) mass) (block forces' j)"
  using assign_cols_shape(3)[OF sh(1) j fill_body_present(1)[OF c fb]]
        assign_cols_shape(3)[OF sh(2) j fill_body_present(2)[OF c fb]]
        assign_cols_shape(3)[OF sh(3) j fill_body_present(3)[OF c fb]]
  by simp_all

lemma fill_body_step3:
  assumes "shapes3 n w st" and "j < n" and "fill_body A mass s e ci j st = Inr st'"
  shows "shapes3 n w st'" and "\<And>i. i < n \<Longrightarrow> i \<noteq> j \<Longrightarrow> blocks3 st' i = blocks3 st i"
proof -
  obtain cops torques forces where st: "st = (cops, torques, forces)" by (cases st)
  obtain cops' torques' forces' where st': "st' = (cops', torques', forces')" by (cases st')
  from assms(1) st have sh: "per_body_shape n w cops" "per_body_shape n w torques"
    "per_body_shape n w forces" by (simp_all add: shapes3_def)
  from assms(3) st st' have fb:
    "fill_body A mass s e ci j (cops, torques, forces) = Inr (cops', torques', forces')" by simp
  from fill_body_step(1,2,3)[OF sh assms(2) fb] st'
  show "shapes3 n w st'" by (simp add: shapes3_def)
  show "\<And>i. i < n \<Longrightarrow> i \<noteq> j \<Longrightarrow> blocks3 st' i = blocks3 st i"
    using fill_body_step(4)[OF sh assms(2) fb] st st' by (simp add: blocks3_def)
qed

lemma fill_body_written3:
  assumes "shapes3 n w st" and "j < n" and "0 \<le> ci ! j" and "fill_body A mass s e ci j st = Inr st'"
  shows "written3 w A mass s e (ci ! j) (blocks3 st' j)"
proof -
  obtain cops torques forces where st: "st = (cops, torques, forces)" by (cases st)
  obtain cops' torques' forces' where st': "st' = (cops', torques', forces')" by (cases st')
  from assms(1) st have sh: "per_body_shape n w cops" "per_body_shape n w torques"
    "per_body_shape n w forces" by (simp_all add: shapes3_def)
  from assms(4) st st' have fb:
    "fill_body A mass s e ci j (cops, torques, forces) = Inr (cops', torques', forces')" by simp
  from fill_body_written[OF sh assms(2,3) fb] st'
  show ?thesis by (simp add: written3_def blocks3_def)
qed

lemma fill_bodies_blocks:
  assumes "shapes3 n w st" and "\<forall>j\<in>set js. j < n" and "distinct js"
    and "fill_bodies A mass s e ci js st = Inr st'"
  shows "shapes3 n w st'"
    and "\<And>i. i < n \<Longrightarrow> i \<notin> set js \<or> ci ! i < 0 \<Longrightarrow> blocks3 st' i = blocks3 st i"
    and "\<And>i. i \<in> set js \<Longrightarrow> 0 \<le> ci ! i \<Longrightarrow> written3 w A mass s e (ci ! i) (blocks3 st' i)"
  using assms
proof (induction js arbitrary: st)
  case Nil
  { case 1 then show ?case by simp }
  { case 2 then show ?case by simp }
  { case 3 then show ?case by simp }
next
  case (Cons j rest)
  { case 1
    then obtain st1 where s1: "fill_body A mass s e ci j st = Inr st1"
      and s2: "fill_bodies A mass s e ci rest st1 = Inr st'"
      by (auto split: sum.splits)
    from 1 have j: "j < n" by simp
    from fill_body_step3(1)[OF 1(1) j s1] have sh1: "shapes3 n w st1" .
    from 1 have r: "\<forall>j\<in>set rest. j < n" "distinct rest" by simp_all
    from Cons.IH(1)[OF sh1 r s2] show ?case . }
  { case (2 i)
    then obtain st1 where s1: "fill_body A mass s e ci j st = Inr st1"
      and s2: "fill_bodies A mass s e ci rest st1 = Inr st'"
      by (auto split: sum.splits)
    from 2 have j: "j < n" and jr: "j \<notin> set rest" by simp_all
    from fill_body_step3(1)[OF 2(3) j s1] have sh1: "shapes3 n w st1" .
    from 2 have r: "\<forall>j\<in>set rest. j < n" "distinct rest" by simp_all
    have first: "blocks3 st1 i = blocks3 st i"
    proof (cases "i = j")
      case True
      with 2(2) have "ci ! j < 0" by auto
      with s1 have "st1 = st" by (simp add: fill_body_absent)
      then show ?thesis by simp
    next
      case False
      from fill_body_step3(2)[OF 2(3) j s1 2(1) False] show ?thesis .
    qed
    have "i \<notin> set rest \<or> ci ! i < 0" using 2(2) jr by auto
    from Cons.IH(2)[OF 2(1) this sh1 r s2] first show ?case by simp }
  { case (3 i)
    then obtain st1 where s1: "fill_body A mass s e ci j st = Inr st1"
      and s2: "fill_bodies A mass s e ci rest st1 = Inr st'"
      by (auto split: sum.splits)
    from 3 have j: "j < n" and jr: "j \<notin> set rest" by simp_all
    from fill_body_step3(1)[OF 3(3) j s1] have sh1: "shapes3 n w st1" .
    from 3 have r: "\<forall>j\<in>set rest. j < n" "distinct rest" by simp_all
    show ?case
    proof (cases "i = j")
      case True
      from fill_body_written3[OF 3(3) j _ s1] 3(2) True
      have "written3 w A mass s e (ci ! j) (blocks3 st1 j)" by simp
      moreover from Cons.IH(2)[OF j _ sh1 r s2] jr have "blocks3 st' j = blocks3 st1 j" by simp
      ultimately show ?thesis using True by simp
    next
      case False
      with 3(1) have "i \<in> set rest" by simp
      from Cons.IH(3)[OF this 3(2) sh1 r s2] show ?thesis .
    qed }
qed

section \<open>The content of a window\<close>

lemmas key_defs =
  POS_def VEL_def ACC_def JOINT_CENTERS_IN_ROOT_FRAME_def ROOT_LINEAR_VEL_IN_ROOT_FRAME_def
  ROOT_ANGULAR_VEL_IN_ROOT_FRAME_def ROOT_LINEAR_ACC_IN_ROOT_FRAME_def
  ROOT_ANGULAR_ACC_IN_ROOT_FRAME_def ROOT_POS_HISTORY_IN_ROOT_FRAME_def
  ROOT_EULER_HISTORY_IN_ROOT_FRAME_def TAU_def GROUND_CONTACT_WRENCHES_IN_ROOT_FRAME_def
  RESIDUAL_WRENCH_IN_ROOT_FRAME_def COM_ACC_IN_ROOT_FRAME_def
  GROUND_CONTACT_COPS_IN_ROOT_FRAME_def GROUND_CONTACT_TORQUES_IN_ROOT_FRAME_def
  GROUND_CONTACT_FORCES_IN_ROOT_FRAME_def

lemma make_window_Inr:
  assumes "make_window world self subject si A start = Inr w"
  obtains cops torques forces where
    "0 \<le> window_size self"
    "fill_bodies A (getMassKg subject) start (start + window_size self)
       (contact_indices_of (getGroundForceBodies subject) (contact_bodies self))
       [0..<length (contact_bodies self)]
       (\<lparr>ncols = 3 * length (contact_bodies self),
         rows = replicate (nat (window_size self)) (replicate (3 * length (contact_bodies self)) 0)\<rparr>,
        \<lparr>ncols = 3 * length (contact_bodies self),
         rows = replicate (nat (window_size self)) (replicate (3 * length (contact_bodies self)) 0)\<rparr>,
        \<lparr>ncols = 3 * length (contact_bodies self),
         rows = replicate (nat (window_size self)) (replicate (3 * length (contact_bodies self)) 0)\<rparr>)
     = Inr (cops, torques, forces)"
    "fst w =
       [(POS, torch_tensor (float32 world) (slice_rows (pos A) start (start + window_size self))),
        (VEL, torch_tensor (float32 world) (slice_rows (vel A) start (start + window_size self))),
        (ACC, torch_tensor (float32 world) (slice_rows (acc_arr A) start (start + window_size self))),
        (JOINT_CENTERS_IN_ROOT_FRAME, torch_tensor (float32 world)
           (slice_rows (joint_centers_in_root_frame A) start (start + window_size self))),
        (ROOT_LINEAR_VEL_IN_ROOT_FRAME, torch_tensor (float32 world)
           (slice2 (root_spatial_vel_in_root_frame A) start (start + window_size self) 3 6)),
        (ROOT_ANGULAR_VEL_IN_ROOT_FRAME, torch_tensor (float32 world)
           (slice2 (root_spatial_vel_in_root_frame A) start (start + window_size self) 0 3)),
        (ROOT_LINEAR_ACC_IN_ROOT_FRAME, torch_tensor (float32 world)
           (slice2 (root_spatial_acc_in_root_frame A) start (start + window_size self) 3 6)),
        (ROOT_ANGULAR_ACC_IN_ROOT_FRAME, torch_tensor (float32 world)
           (slice2 (root_spatial_acc_in_root_frame A) start (start + window_size self) 0 3)),
        (ROOT_POS_HISTORY_IN_ROOT_FRAME, torch_tensor (float32 world)
           (slice_rows (root_pos_history A) start (start + window_size self))),
        (ROOT_EULER_HISTORY_IN_ROOT_FRAME, torch_tensor (float32 world)
           (slice_rows (root_euler_history A) start (start + window_size self)))]"
    "fst (snd w) =
       [(TAU, torch_tensor (float32 world) (slice_rows (tau A) start (start + window_size self))),
        (GROUND_CONTACT_WRENCHES_IN_ROOT_FRAME, torch_tensor (float32 world)
           (div_scalar (slice_rows (ground_contact_wrenches_in_root_frame A)
                          start (start + window_size self)) (getMassKg subject))),
        (GROUND_CONTACT_COPS_IN_ROOT_FRAME, torch_tensor (float32 world) cops),
        (GROUND_CONTACT_TORQUES_IN_ROOT_FRAME, torch_tensor (float32 world) torques),
        (GROUND_CONTACT_FORCES_IN_ROOT_FRAME, torch_tensor (float32 world) forces),
        (RESIDUAL_WRENCH_IN_ROOT_FRAME, torch_tensor (float32 world)
           (slice_rows (residual_wrench_in_root_frame A) start (start + window_size self))),
        (COM_ACC_IN_ROOT_FRAME, torch_tensor (float32 world)
           (slice_rows (com_acc_in_root_frame A) start (start + window_size self)))]"
proof (cases "window_size self < 0")
  case True
  with assms show ?thesis by (simp add: make_window_def np_zeros_def)
next
  case False
  let ?n = "length (contact_bodies self)"
  let ?Z = "\<lparr>ncols = 3 * ?n,
             rows = replicate (nat (window_size self)) (replicate (3 * ?n) (0::'a))\<rparr>"
  from False have z: "(np_zeros (start + window_size self - start) (3 * int ?n) :: error + 'a ndarray)
      = Inr ?Z"
    by (simp add: np_zeros_def nat_mult_distrib)
  show ?thesis
  proof (cases "fill_bodies A (getMassKg subject) start (start + window_size self)
       (contact_indices_of (getGroundForceBodies subject) (contact_bodies self))
       [0..<?n] (?Z, ?Z, ?Z)")
    case (Inl e)
    with assms z show ?thesis by (simp add: make_window_def Let_def)
  next
    case (Inr st)
    obtain cops torques forces where st: "st = (cops, torques, forces)" by (cases st)
    from assms z Inr st have w: "w =
      ([(POS, torch_tensor (float32 world) (slice_rows (pos A) start (start + window_size self))),
        (VEL, torch_tensor (float32 world) (slice_rows (vel A) start (start + window_size self))),
        (ACC, torch_tensor (float32 world) (slice_rows (acc_arr A) start (start + window_size self))),
        (JOINT_CENTERS_IN_ROOT_FRAME, torch_tensor (float32 world)
           (slice_rows (joint_centers_in_root_frame A) start (start + window_size self))),
        (ROOT_LINEAR_VEL_IN_ROOT_FRAME, torch_tensor (float32 world)
           (slice2 (root_spatial_vel_in_root_frame A) start (start + window_size self) 3 6)),
        (ROOT_ANGULAR_VEL_IN_ROOT_FRAME, torch_tensor (float32 world)
           (slice2 (root_spatial_vel_in_root_frame A) start (start + window_size self) 0 3)),
        (ROOT_LINEAR_ACC_IN_ROOT_FRAME, torch_tensor (float32 world)
           (slice2 (root_spatial_acc_in_root_frame A) start (start + window_size self) 3 6)),
        (ROOT_ANGULAR_ACC_IN_ROOT_FRAME, torch_tensor (float32 world)
           (slice2 (root_spatial_acc_in_root_frame A) start (start + window_size self) 0 3)),
        (ROOT_POS_HISTORY_IN_ROOT_FRAME, torch_tensor (float32 world)
           (slice_rows (root_pos_history A) start (start + window_size self))),
        (ROOT_EULER_HISTORY_IN_ROOT_FRAME, torch_tensor (float32 world)
           (slice_rows (root_euler_history A) start (start + window_size self)))],
       [(TAU, torch_tensor (float32 world) (slice_rows (tau A) start (start + window_size self))),
        (GROUND_CONTACT_WRENCHES_IN_ROOT_FRAME, torch_tensor (float32 world)
           (div_scalar (slice_rows (ground_contact_wrenches_in_root_frame A)
                          start (start + window_size self)) (getMassKg subject))),
        (GROUND_CONTACT_COPS_IN_ROOT_FRAME, torch_tensor (float32 world) cops),
        (GROUND_CONTACT_TORQUES_IN_ROOT_FRAME, torch_tensor (float32 world) torques),
        (GROUND_CONTACT_FORCES_IN_ROOT_FRAME, torch_tensor (float32 world) forces),
        (RESIDUAL_WRENCH_IN_ROOT_FRAME, torch_tensor (float32 world)
           (slice_rows (residual_wrench_in_root_frame A) start (start + window_size self))),
        (COM_ACC_IN_ROOT_FRAME, torch_tensor (float32 world)
           (slice_rows (com_acc_in_root_frame A) start (start + window_size self)))],
       si)"
      by (simp add: make_window_def Let_def)
    show ?thesis
    proof (rule that)
      show "0 \<le> window_size self" using False by simp
      show "fill_bodies A (getMassKg subject) start (start + window_size self)
       (contact_indices_of (getGroundForceBodies subject) (contact_bodies self))
       [0..<?n] (?Z, ?Z, ?Z) = Inr (cops, torques, forces)" using Inr st by simp
    qed (simp_all add: w)
  qed
qed

lemma origin_start:
  assumes "window_origin world self indices w si trial start"
  shows "0 \<le> start" and "start + window_size self \<le> int (getTrialLength trial)"
  using assms by (auto simp: window_origin_def trial_starts_def set_py_range)

lemma origin_unflagged:
  assumes "window_origin world self indices w si trial start"
    and "start \<le> i" and "i < start + window_size self"
  shows "i < int (length (getMissingGRF trial)) \<and> getMissingGRF trial ! nat i = notMissingGRF"
proof -
  from assms(1) have s: "0 \<le> start"
    and scan: "window_has_missing (trial_flags trial)
                 (py_range start (start + window_size self)) = Inr False"
    by (simp_all add: origin_start window_origin_def)
  have nonneg: "\<forall>i\<in>set (py_range start (start + window_size self)). 0 \<le> i"
    using s by (auto simp: set_py_range)
  from window_has_missing_eq(2)[OF nonneg scan] assms(2,3)
  have a: "i < int (length (trial_flags trial))" and b: "\<not> trial_flags trial ! nat i"
    by (simp_all add: set_py_range)
  from assms(2) s have i0: "0 \<le> i" by simp
  from a have a': "i < int (length (getMissingGRF trial))" by (simp add: trial_flags_def)
  with i0 have lt: "nat i < length (getMissingGRF trial)" by linarith
  from b lt have "getMissingGRF trial ! nat i = notMissingGRF" by (simp add: trial_flags_def)
  with a' show ?thesis by simp
qed

lemma origin_shapes:
  assumes sh: "recording_shapes world self"
    and o: "window_origin world self indices w si trial start"
  shows "pass_frames (getTrialLength trial) (hd (getPasses trial))"
    and "pass_frames (getTrialLength trial) (last (getPasses trial))"
    and "nrows (getGroundBodyCopTorqueForceInRootFrame (last (getPasses trial)))
           = 9 * length (getGroundForceBodies (subject_at world self si))"
proof -
  from o have si: "0 \<le> si" "si < int (length (subject_paths self))"
    and tr: "trial \<in> set (getTrials (subject_at world self si))"
    and ne: "getPasses trial \<noteq> []"
    by (simp_all add: window_origin_def)
  from si have "subject_paths self ! nat si \<in> set (subject_paths self)" by simp
  with sh have "subject_shapes (subject_at world self si)"
    by (simp add: recording_shapes_def list_all_iff subject_at_def)
  with tr have all: "\<forall>p\<in>set (getPasses trial). pass_frames (getTrialLength trial) p \<and>
                       nrows (getGroundBodyCopTorqueForceInRootFrame p)
                         = 9 * length (getGroundForceBodies (subject_at world self si))"
    by (simp add: subject_shapes_def list_all_iff)
  from ne have "hd (getPasses trial) \<in> set (getPasses trial)"
    "last (getPasses trial) \<in> set (getPasses trial)" by simp_all
  with all show "pass_frames (getTrialLength trial) (hd (getPasses trial))"
    and "pass_frames (getTrialLength trial) (last (getPasses trial))"
    and "nrows (getGroundBodyCopTorqueForceInRootFrame (last (getPasses trial)))
           = 9 * length (getGroundForceBodies (subject_at world self si))"
    by simp_all
qed

lemma zeros_shape:
  "per_body_shape n w \<lparr>ncols = 3 * n, rows = replicate w (replicate (3 * n) 0)\<rparr>"
  by (simp add: per_body_shape_def nrows_def regular_def list_all_iff)

lemma zeros_shapes3:
  "shapes3 n w (\<lparr>ncols = 3 * n, rows = replicate w (replicate (3 * n) 0)\<rparr>,
                \<lparr>ncols = 3 * n, rows = replicate w (replicate (3 * n) 0)\<rparr>,
                \<lparr>ncols = 3 * n, rows = replicate w (replicate (3 * n) 0)\<rparr>)"
  by (simp add: shapes3_def zeros_shape)

lemma window_rows:
  assumes mk: "make_window world self subject si A start = Inr w"
    and s: "0 \<le> start"
    and r: "nrows (pos A) = T" "nrows (vel A) = T" "nrows (acc_arr A) = T"
      "nrows (joint_centers_in_root_frame A) = T" "nrows (root_spatial_vel_in_root_frame A) = T"
      "nrows (root_spatial_acc_in_root_frame A) = T" "nrows (root_pos_history A) = T"
      "nrows (root_euler_history A) = T" "nrows (tau A) = T"
      "nrows (ground_contact_wrenches_in_root_frame A) = T"
      "nrows (com_acc_in_root_frame A) = T" "nrows (residual_wrench_in_root_frame A) = T"
    and e: "start + window_size self \<le> int T"
  shows "\<forall>(key, a) \<in> set (fst w) \<union> set (fst (snd w)). int (nrows a) = window_size self"
proof -
  from mk obtain cops torques forces where
    ws: "0 \<le> window_size self"
    and fb: "fill_bodies A (getMassKg subject) start (start + window_size self)
       (contact_indices_of (getGroundForceBodies subject) (contact_bodies self))
       [0..<length (contact_bodies self)]
       (\<lparr>ncols = 3 * length (contact_bodies self),
         rows = replicate (nat (window_size self)) (replicate (3 * length (contact_bodies self)) 0)\<rparr>,
        \<lparr>ncols = 3 * length (contact_bodies self),
         rows = replicate (nat (window_size self)) (replicate (3 * length (contact_bodies self)) 0)\<rparr>,
        \<lparr>ncols = 3 * length (contact_bodies self),
         rows = replicate (nat (window_size self)) (replicate (3 * length (contact_bodies self)) 0)\<rparr>)
     = Inr (cops, torques, forces)"
    and ins: "fst w =
       [(POS, torch_tensor (float32 world) (slice_rows (pos A) start (start + window_size self))),
        (VEL, torch_tensor (float32 world) (slice_rows (vel A) start (start + window_size self))),
        (ACC, torch_tensor (float32 world) (slice_rows (acc_arr A) start (start + window_size self))),
        (JOINT_CENTERS_IN_ROOT_FRAME, torch_tensor (float32 world)
           (slice_rows (joint_centers_in_root_frame A) start (start + window_size self))),
        (ROOT_LINEAR_VEL_IN_ROOT_FRAME, torch_tensor (float32 world)
           (slice2 (root_spatial_vel_in_root_frame A) start (start + window_size self) 3 6)),
        (ROOT_ANGULAR_VEL_IN_ROOT_FRAME, torch_tensor (float32 world)
           (slice2 (root_spatial_vel_in_root_frame A) start (start + window_size self) 0 3)),
        (ROOT_LINEAR_ACC_IN_ROOT_FRAME, torch_tensor (float32 world)
           (slice2 (root_spatial_acc_in_root_frame A) start (start + window_size self) 3 6)),
        (ROOT_ANGULAR_ACC_IN_ROOT_FRAME, torch_tensor (float32 world)
           (slice2 (root_spatial_acc_in_root_frame A) start (start + window_size self) 0 3)),
        (ROOT_POS_HISTORY_IN_ROOT_FRAME, torch_tensor (float32 world)
           (slice_rows (root_pos_history A) start (start + window_size self))),
        (ROOT_EULER_HISTORY_IN_ROOT_FRAME, torch_tensor (float32 world)
           (slice_rows (root_euler_history A) start (start + window_size self)))]"
    and outs: "fst (snd w) =
       [(TAU, torch_tensor (float32 world) (slice_rows (tau A) start (start + window_size self))),
        (GROUND_CONTACT_WRENCHES_IN_ROOT_FRAME, torch_tensor (float32 world)
           (div_scalar (slice_rows (ground_contact_wrenches_in_root_frame A)
                          start (start + window_size self)) (getMassKg subject))),
        (GROUND_CONTACT_COPS_IN_ROOT_FRAME, torch_tensor (float32 world) cops),
        (GROUND_CONTACT_TORQUES_IN_ROOT_FRAME, torch_tensor (float32 world) torques),
        (GROUND_CONTACT_FORCES_IN_ROOT_FRAME, torch_tensor (float32 world) forces),
        (RESIDUAL_WRENCH_IN_ROOT_FRAME, torch_tensor (float32 world)
           (slice_rows (residual_wrench_in_root_frame A) start (start + window_size self))),
        (COM_ACC_IN_ROOT_FRAME, torch_tensor (float32 world)
           (slice_rows (com_acc_in_root_frame A) start (start + window_size self)))]"
    by (rule make_window_Inr)
  have sl: "\<And>a. nrows a = T \<Longrightarrow> int (nrows (slice_rows a start (start + window_size self))) = window_size self"
    using s ws e by (simp add: nrows_slice_rows)
  have sl2: "\<And>a c0 c1. nrows a = T \<Longrightarrow>
      int (nrows (slice2 a start (start + window_size self) c0 c1)) = window_size self"
    using s ws e by (simp add: nrows_slice2)
  have "shapes3 (length (contact_bodies self)) (nat (window_size self)) (cops, torques, forces)"
    by (rule fill_bodies_blocks(1)[OF zeros_shapes3 _ _ fb]) simp_all
  then have b: "int (nrows cops) = window_size self" "int (nrows torques) = window_size self"
    "int (nrows forces) = window_size self"
    using ws by (simp_all add: shapes3_def per_body_shape_def)
  show ?thesis
    unfolding ins outs by (simp add: sl sl2 r b)
qed

lemma arrays_of_nrows:
  assumes "pass_frames T (hd (getPasses trial))" and "pass_frames T (last (getPasses trial))"
  shows "nrows (pos (arrays_of trial)) = T" "nrows (vel (arrays_of trial)) = T"
      "nrows (acc_arr (arrays_of trial)) = T"
      "nrows (joint_centers_in_root_frame (arrays_of trial)) = T"
      "nrows (root_spatial_vel_in_root_frame (arrays_of trial)) = T"
      "nrows (root_spatial_acc_in_root_frame (arrays_of trial)) = T"
      "nrows (root_pos_history (arrays_of trial)) = T"
      "nrows (root_euler_history (arrays_of trial)) = T" "nrows (tau (arrays_of trial)) = T"
      "nrows (ground_contact_wrenches_in_root_frame (arrays_of trial)) = T"
      "nrows (com_acc_in_root_frame (arrays_of trial)) = T"
      "nrows (residual_wrench_in_root_frame (arrays_of trial)) = T"
      "nrows (ground_contact_cop_torque_force_in_root_frame (arrays_of trial)) = T"
  using assms by (simp_all add: arrays_of_def pull_arrays_def pass_frames_def)

text \<open>
  C1. When the recording source keeps its shape contract (every array has one column per
  frame of its trial), every window of the store was built at a start of some trial
  of a subject of the subset such that: each of its input and label tensors has
  exactly \<^verbatim>\<open>window_size\<close> rows; every frame of \<open>[start, start + window_size)\<close> has a
  flag and the flag is \<^verbatim>\<open>notMissingGRF\<close>; and \<open>start + window_size\<close> does not exceed
  the length of the trial.
\<close>

theorem windows_well_formed:
  assumes "recording_shapes world self"
    and "w \<in> set (windows (fst (state_of (prepare_data_for_subset world self subset_indices))))"
  shows "\<exists>si trial start.
           window_origin world self (subset_list self subset_indices) w si trial start
           \<and> (\<forall>(key, a) \<in> set (fst w) \<union> set (fst (snd w)). int (nrows a) = window_size self)
           \<and> (\<forall>i. start \<le> i \<and> i < start + window_size self \<longrightarrow>
                  i < int (length (getMissingGRF trial))
                  \<and> getMissingGRF trial ! nat i = notMissingGRF)
           \<and> 0 \<le> start \<and> start + window_size self \<le> int (getTrialLength trial)"
proof -
  from materialized_origin[OF assms(2)] obtain si trial start where
    o: "window_origin world self (subset_list self subset_indices) w si trial start" by blast
  from o have mk: "make_window world self (subject_at world self si) si (arrays_of trial) start = Inr w"
    by (simp add: window_origin_def)
  note fr = arrays_of_nrows[OF origin_shapes(1,2)[OF assms(1) o]]
  have rows: "\<forall>(key, a) \<in> set (fst w) \<union> set (fst (snd w)). int (nrows a) = window_size self"
    by (rule window_rows[OF mk origin_start(1)[OF o] fr(1-12) origin_start(2)[OF o]])
  have flags: "\<forall>i. start \<le> i \<and> i < start + window_size self \<longrightarrow>
                  i < int (length (getMissingGRF trial))
                  \<and> getMissingGRF trial ! nat i = notMissingGRF"
    using origin_unflagged[OF o] by blast
  from o rows flags origin_start[OF o] show ?thesis by blast
qed

end
